theory Spec2Isabelle
  imports Main "HOL-Library.Multiset"
begin

section \<open>Data model of the customizable layout component\<close>

text \<open>
  The component of \<^verbatim>\<open>customizable-layout.component.ts\<close> keeps one layout per
  breakpoint. The interfaces it imports declare the shapes below; only the fields the
  component reads or writes are modelled. A JavaScript \<^verbatim>\<open>undefined\<close> is \<open>None\<close>.
\<close>

datatype LayoutType = Mobile | Tablet | Desktop

datatype js_error = TypeError | SyntaxError

record LayoutElement =
  componentName :: string
  metadata :: string

record LayoutList =
  items :: "LayoutElement list"
  width :: string
  connectedTo :: "string list"
  containerName :: string

text \<open>
  \<open>listsL\<close> is the field \<^verbatim>\<open>lists\<close>. It is optional because \<^verbatim>\<open>getConnectedLists\<close>
  builds an object whose \<^verbatim>\<open>lists\<close> is undefined when it is handed an undefined
  layout.
\<close>

record CustomizableLayout =
  listsL :: "LayoutList list option"

record CustomizableLayoutConfig =
  name :: string
  version :: int
  mobile :: "CustomizableLayout option"
  tablet :: "CustomizableLayout option"
  desktop :: "CustomizableLayout option"

text \<open>\<^verbatim>\<open>config[layoutType]\<close>, read and written.\<close>

fun variant :: "CustomizableLayoutConfig \<Rightarrow> LayoutType \<Rightarrow> CustomizableLayout option" where
  "variant c Mobile = mobile c"
| "variant c Tablet = tablet c"
| "variant c Desktop = desktop c"

fun set_variant ::
  "CustomizableLayoutConfig \<Rightarrow> LayoutType \<Rightarrow> CustomizableLayout option \<Rightarrow> CustomizableLayoutConfig" where
  "set_variant c Mobile v = c\<lparr>mobile := v\<rparr>"
| "set_variant c Tablet v = c\<lparr>tablet := v\<rparr>"
| "set_variant c Desktop v = c\<lparr>desktop := v\<rparr>"

section \<open>Breakpoint selector\<close>

text \<open>
  The \<^verbatim>\<open>map\<close> stage of \<^verbatim>\<open>layoutType$\<close> in \<^verbatim>\<open>ngOnInit\<close>: the width of the
  window against \<^verbatim>\<open>tabletBreakpoint\<close>. Widths are whole pixels.
\<close>

definition selectLayoutType :: "int \<Rightarrow> int \<Rightarrow> LayoutType" where
  "selectLayoutType tabletBreakpoint w =
     (if w \<le> tabletBreakpoint then Mobile else Tablet)"

text \<open>The \<^verbatim>\<open>map\<close> stage of \<^verbatim>\<open>dragDelay$\<close>.\<close>

fun dragDelay :: "LayoutType \<Rightarrow> nat" where
  "dragDelay Mobile = 150"
| "dragDelay _ = 0"

section \<open>Library functions the component calls\<close>

text \<open>
  Array helpers of JavaScript. \<^verbatim>\<open>findIndex\<close> and \<^verbatim>\<open>indexOf\<close> return \<open>-1\<close>
  when nothing is found; that is \<open>None\<close> here.
\<close>

fun findIndex :: "('a \<Rightarrow> bool) \<Rightarrow> 'a list \<Rightarrow> nat option" where
  "findIndex p [] = None"
| "findIndex p (x # xs) = (if p x then Some 0 else map_option Suc (findIndex p xs))"

definition indexOf :: "'a list \<Rightarrow> 'a \<Rightarrow> nat option" where
  "indexOf xs x = findIndex (\<lambda>y. y = x) xs"

text \<open>\<^verbatim>\<open>array.splice(i, 0, e)\<close> for \<open>0 \<le> i\<close>: past the end it appends.\<close>

definition splice_insert :: "nat \<Rightarrow> 'a \<Rightarrow> 'a list \<Rightarrow> 'a list" where
  "splice_insert i e xs = take i xs @ e # drop i xs"

text \<open>The first element that satisfies \<open>p\<close>, replaced by its image under \<open>f\<close>.\<close>

fun updateFirst :: "('a \<Rightarrow> bool) \<Rightarrow> ('a \<Rightarrow> 'a) \<Rightarrow> 'a list \<Rightarrow> 'a list" where
  "updateFirst p f [] = []"
| "updateFirst p f (x # xs) = (if p x then f x # xs else x # updateFirst p f xs)"

text \<open>A loop whose body may throw: the first error ends it.\<close>

fun foldE :: "('s \<Rightarrow> 'a \<Rightarrow> 'e + 's) \<Rightarrow> 'a list \<Rightarrow> 's \<Rightarrow> 'e + 's" where
  "foldE f [] s = Inr s"
| "foldE f (x # xs) s = (case f s x of Inl e \<Rightarrow> Inl e | Inr s' \<Rightarrow> foldE f xs s')"

fun mapE :: "('a \<Rightarrow> 'e + 'b) \<Rightarrow> 'a list \<Rightarrow> 'e + 'b list" where
  "mapE f [] = Inr []"
| "mapE f (x # xs) =
     (case f x of Inl e \<Rightarrow> Inl e
      | Inr y \<Rightarrow> (case mapE f xs of Inl e \<Rightarrow> Inl e | Inr ys \<Rightarrow> Inr (y # ys)))"

subsection \<open>Property order of a JavaScript object\<close>

text \<open>
  \<^verbatim>\<open>_.findKey\<close> visits the own keys of the object in the order of
  \<^verbatim>\<open>Object.keys\<close>: the keys that are array indices (canonical decimal numerals below
  \<open>2\<^sup>3\<^sup>2 - 1\<close>) first, in ascending numeric order, then the other keys in the order in
  which they were created.
\<close>

definition isDigit :: "char \<Rightarrow> bool" where
  "isDigit c = (c \<in> set ''0123456789'')"

definition decimalValue :: "string \<Rightarrow> nat" where
  "decimalValue s = foldl (\<lambda>a c. 10 * a + (of_char c - 48)) 0 s"

definition isArrayIndex :: "string \<Rightarrow> bool" where
  "isArrayIndex s =
     (s \<noteq> [] \<and> list_all isDigit s \<and> (s = ''0'' \<or> hd s \<noteq> CHR ''0'') \<and>
      decimalValue s < 4294967295)"

definition ownKeys :: "string list \<Rightarrow> string list" where
  "ownKeys ks =
     sort_key decimalValue (filter isArrayIndex ks) @ filter (\<lambda>k. \<not> isArrayIndex k) ks"

text \<open>The elements of a list, each kept at its first occurrence.\<close>

definition firstOccurrences :: "'a list \<Rightarrow> 'a list" where
  "firstOccurrences xs = rev (remdups (rev xs))"

text \<open>
  \<^verbatim>\<open>_.groupBy(lists, l => l.containerName)\<close> of lodash: an object with one key per
  container name, created at the first list of that name, whose value is the array of
  the lists of that name in their order. The object is an association list in creation
  order.
\<close>

definition groupBy :: "LayoutList list \<Rightarrow> (string \<times> LayoutList list) list" where
  "groupBy ls =
     map (\<lambda>k. (k, filter (\<lambda>l. containerName l = k) ls))
       (firstOccurrences (map containerName ls))"

text \<open>\<^verbatim>\<open>_.findKey(object, predicate)\<close>: the first own key whose value satisfies the predicate.\<close>

definition findKey :: "(string \<times> 'v) list \<Rightarrow> ('v \<Rightarrow> string \<Rightarrow> bool) \<Rightarrow> string option" where
  "findKey obj p =
     find (\<lambda>k. case map_of obj k of None \<Rightarrow> False | Some v \<Rightarrow> p v k) (ownKeys (map fst obj))"

subsection \<open>The drag and drop helpers of the CDK\<close>

definition clamp :: "int \<Rightarrow> int \<Rightarrow> int" where
  "clamp v mx = max 0 (min mx v)"

text \<open>
  \<^verbatim>\<open>moveItemInArray\<close> clamps both indices to the array and shifts the elements between
  them by one place, which takes the element out at \<open>from\<close> and puts it back at \<open>to\<close>.
\<close>

definition moveItemInArray :: "'a list \<Rightarrow> int \<Rightarrow> int \<Rightarrow> 'a list" where
  "moveItemInArray array fromIndex toIndex =
     (let from = nat (clamp fromIndex (int (length array) - 1));
          to = nat (clamp toIndex (int (length array) - 1))
      in if from = to then array
         else splice_insert to (array ! from) (take from array @ drop (Suc from) array))"

text \<open>
  \<^verbatim>\<open>transferArrayItem\<close> does nothing on an empty source array; otherwise it removes
  the element at \<open>from\<close> and splices it into the target at \<open>to\<close>. Both arrays are
  returned: the call changes them in place.
\<close>

definition transferArrayItem :: "'a list \<Rightarrow> 'a list \<Rightarrow> int \<Rightarrow> int \<Rightarrow> 'a list \<times> 'a list" where
  "transferArrayItem currentArray targetArray currentIndex targetIndex =
     (let from = nat (clamp currentIndex (int (length currentArray) - 1));
          to = nat (clamp targetIndex (int (length targetArray)))
      in if currentArray = [] then (currentArray, targetArray)
         else (take from currentArray @ drop (Suc from) currentArray,
               splice_insert to (currentArray ! from) targetArray))"

section \<open>Persisted values\<close>

text \<open>
  What \<^verbatim>\<open>JSON.parse\<close> can return for the text kept in \<^verbatim>\<open>localStorage\<close>: null, an
  object with the fields of a config, or some other value. The text itself is either
  malformed or the serialisation of such a value; serialising and parsing a value
  gives the value back.
\<close>

datatype js_value = JNull | JOther | JConfig CustomizableLayoutConfig

datatype stored_text = Malformed | WellFormed js_value

text \<open>
  \<^verbatim>\<open>JSON.parse(localStorage.getItem(key))\<close>: \<^verbatim>\<open>getItem\<close> returns null for an absent
  key, which \<^verbatim>\<open>JSON.parse\<close> reads as the text \<^verbatim>\<open>null\<close>; malformed text throws.
\<close>

definition JSON_parse :: "stored_text option \<Rightarrow> js_error + js_value" where
  "JSON_parse t =
     (case t of
        None \<Rightarrow> Inr JNull
      | Some Malformed \<Rightarrow> Inl SyntaxError
      | Some (WellFormed v) \<Rightarrow> Inr v)"

text \<open>
  Modelled from the spec: \<^verbatim>\<open>isCustomizableLayoutConfig\<close> is imported from
  \<^verbatim>\<open>model/customizable-layout-config.interface\<close>, which is not among the sources. The
  spec: a config is valid iff it has a non-empty name, a numeric version, and at least
  the Mobile variant populated with lists; the predicate does not throw.
\<close>

fun isCustomizableLayoutConfig :: "js_value \<Rightarrow> bool" where
  "isCustomizableLayoutConfig (JConfig c) =
     (name c \<noteq> [] \<and> (case mobile c of None \<Rightarrow> False | Some l \<Rightarrow> listsL l \<noteq> None))"
| "isCustomizableLayoutConfig _ = False"

text \<open>
  \<^verbatim>\<open>createCopy\<close> serialises and parses again. On the values of this model, which hold
  no references, the copy is the value.
\<close>

definition createCopy :: "'a \<Rightarrow> 'a" where
  "createCopy obj = obj"

section \<open>Reconciler\<close>

text \<open>
  \<^verbatim>\<open>flatMap(column => column.items)\<close> followed by \<^verbatim>\<open>map(le => le.componentName)\<close>.
\<close>

definition elementNames :: "LayoutList list \<Rightarrow> string list" where
  "elementNames ls = map componentName (concat (map items ls))"

text \<open>
  \<^verbatim>\<open>missingElementNames\<close>: the names of the default layout, in its order, that
  \<^verbatim>\<open>indexOf\<close> does not find among the names of the stored layout. The stored names
  are read once, before the loop.
\<close>

definition missingElementNames :: "LayoutList list \<Rightarrow> LayoutList list \<Rightarrow> string list" where
  "missingElementNames defaultLists storedLists =
     filter (\<lambda>elem. indexOf (elementNames storedLists) elem = None) (elementNames defaultLists)"

text \<open>
  The predicate handed to \<^verbatim>\<open>_.findKey\<close>: the first list of the group whose name is
  the key holds an item with the missing name (an empty group gives false through
  \<^verbatim>\<open>?.\<close>).
\<close>

definition holdsComponent :: "string \<Rightarrow> LayoutList list \<Rightarrow> string \<Rightarrow> bool" where
  "holdsComponent missingComponentName grp key =
     (case find (\<lambda>l. containerName l = key) grp of
        None \<Rightarrow> False
      | Some l \<Rightarrow> find (\<lambda>i. componentName i = missingComponentName) (items l) \<noteq> None)"

definition originContainer :: "LayoutList list \<Rightarrow> string \<Rightarrow> string option" where
  "originContainer defaultLists missingComponentName =
     findKey (groupBy defaultLists) (holdsComponent missingComponentName)"

text \<open>
  The body of the \<^verbatim>\<open>forEach\<close> over the missing names. The places where it throws:
  \<^item> \<^verbatim>\<open>_.findKey\<close> found no key, so \<^verbatim>\<open>containerName\<close> is undefined; then either
    the group read under that key is undefined and \<^verbatim>\<open>[0]\<close> throws, or (a container
    called \<^verbatim>\<open>undefined\<close>) the stored layout is searched for a list whose name is
    the value undefined, none is found, and \<^verbatim>\<open>.items\<close> throws;
  \<^item> the stored layout has no list with the container's name, so \<^verbatim>\<open>find\<close> returns
    undefined and \<^verbatim>\<open>.items\<close> throws.
  The three branches marked unreachable cannot be taken after \<^verbatim>\<open>_.findKey\<close> has
  returned a key (lemma \<open>originContainer_group\<close>).
\<close>

definition insertMissing :: "LayoutList list \<Rightarrow> LayoutList list \<Rightarrow> string \<Rightarrow> js_error + LayoutList list" where
  "insertMissing defaultLists storedLists missingComponentName =
     (case originContainer defaultLists missingComponentName of
        None \<Rightarrow> Inl TypeError
      | Some cn \<Rightarrow>
          (case map_of (groupBy defaultLists) cn of
             None \<Rightarrow> Inl TypeError \<comment> \<open>unreachable\<close>
           | Some [] \<Rightarrow> Inl TypeError \<comment> \<open>unreachable\<close>
           | Some (first # _) \<Rightarrow>
               (let defaultElementsInContainer = items first in
                case findIndex (\<lambda>e. componentName e = missingComponentName)
                       defaultElementsInContainer of
                  None \<Rightarrow> Inl TypeError \<comment> \<open>unreachable\<close>
                | Some defaultElementIndex \<Rightarrow>
                    (let element = defaultElementsInContainer ! defaultElementIndex in
                     case find (\<lambda>l. containerName l = cn) storedLists of
                       None \<Rightarrow> Inl TypeError
                     | Some storedList \<Rightarrow>
                         (let index = (if defaultElementIndex > length (items storedList)
                                       then 0 else defaultElementIndex)
                          in Inr (updateFirst (\<lambda>l. containerName l = cn)
                                    (\<lambda>l. l\<lparr>items := splice_insert index element (items l)\<rparr>)
                                    storedLists))))))"

text \<open>
  \<^verbatim>\<open>addMissingComponentsToStoredLayout\<close> for one breakpoint. It returns at once when
  either variant is undefined. \<^verbatim>\<open>lists.flatMap\<close> throws when a variant has no
  \<^verbatim>\<open>lists\<close>. The stored config is changed in place; here it is returned.
\<close>

definition addMissingComponentsToStoredLayout ::
  "CustomizableLayoutConfig \<Rightarrow> CustomizableLayoutConfig \<Rightarrow> LayoutType
     \<Rightarrow> js_error + CustomizableLayoutConfig" where
  "addMissingComponentsToStoredLayout storedLayoutConfig defaultLayoutConfig layoutType =
     (case variant storedLayoutConfig layoutType of
        None \<Rightarrow> Inr storedLayoutConfig
      | Some storedLayout \<Rightarrow>
          (case variant defaultLayoutConfig layoutType of
             None \<Rightarrow> Inr storedLayoutConfig
           | Some defaultLayout \<Rightarrow>
               (case listsL defaultLayout of
                  None \<Rightarrow> Inl TypeError
                | Some defaultLists \<Rightarrow>
                    (case listsL storedLayout of
                       None \<Rightarrow> Inl TypeError
                     | Some storedLists \<Rightarrow>
                         (case foldE (insertMissing defaultLists)
                                 (missingElementNames defaultLists storedLists) storedLists of
                            Inl e \<Rightarrow> Inl e
                          | Inr storedLists' \<Rightarrow>
                              Inr (set_variant storedLayoutConfig layoutType
                                     (Some (storedLayout\<lparr>listsL := Some storedLists'\<rparr>))))))))"

section \<open>The component\<close>

text \<open>
  The fields of the component that the operations read or write. \<^verbatim>\<open>_layoutState\<close>
  holds null until \<^verbatim>\<open>initializeState\<close> has run; the record is the component after
  that call has returned. \<^verbatim>\<open>localStorage\<close> maps a key to the text kept under it.
\<close>

record Component =
  defaultLayout :: CustomizableLayoutConfig
  layoutState :: CustomizableLayoutConfig
  layoutType :: LayoutType
  localStorage :: "string \<Rightarrow> stored_text option"

text \<open>
  The three reconciliation calls of \<^verbatim>\<open>initializeState\<close>, Mobile, Tablet and
  Desktop in this order, on the one stored config; an error of a call ends the
  sequence.
\<close>

definition reconcileStored ::
  "CustomizableLayoutConfig \<Rightarrow> CustomizableLayoutConfig \<Rightarrow> js_error + CustomizableLayoutConfig" where
  "reconcileStored stored dflt =
     (case addMissingComponentsToStoredLayout stored dflt Mobile of
        Inl e \<Rightarrow> Inl e
      | Inr s1 \<Rightarrow>
          (case addMissingComponentsToStoredLayout s1 dflt Tablet of
             Inl e \<Rightarrow> Inl e
           | Inr s2 \<Rightarrow> addMissingComponentsToStoredLayout s2 dflt Desktop))"

text \<open>
  \<^verbatim>\<open>initializeState\<close>. \<^verbatim>\<open>JSON.parse\<close> is not guarded, so its error leaves the
  function; so does an error of the reconciliation. \<^verbatim>\<open>_layoutType\<close> starts as Mobile.
\<close>

definition initializeState ::
  "CustomizableLayoutConfig \<Rightarrow> (string \<Rightarrow> stored_text option) \<Rightarrow> js_error + Component" where
  "initializeState dflt storage =
     (case JSON_parse (storage (name dflt)) of
        Inl e \<Rightarrow> Inl e
      | Inr storedLayout \<Rightarrow>
          (case storedLayout of
             JConfig stored \<Rightarrow>
               (if isCustomizableLayoutConfig storedLayout \<and> version dflt \<le> version stored then
                  (case reconcileStored stored dflt of
                     Inl e \<Rightarrow> Inl e
                   | Inr reconciled \<Rightarrow>
                       Inr \<lparr>defaultLayout = dflt, layoutState = reconciled,
                            layoutType = Mobile, localStorage = storage\<rparr>)
                else Inr \<lparr>defaultLayout = dflt, layoutState = createCopy dflt,
                          layoutType = Mobile, localStorage = storage\<rparr>)
           | _ \<Rightarrow> Inr \<lparr>defaultLayout = dflt, layoutState = createCopy dflt,
                       layoutType = Mobile, localStorage = storage\<rparr>))"

subsection \<open>The current layout\<close>

text \<open>The getter \<^verbatim>\<open>currentLayout\<close>: undefined when the config has no such variant.\<close>

definition currentLayout :: "Component \<Rightarrow> CustomizableLayout option" where
  "currentLayout st = variant (layoutState st) (layoutType st)"

text \<open>
  \<^verbatim>\<open>this.currentLayout.lists\<close> as every caller uses it (\<^verbatim>\<open>.map\<close>, \<^verbatim>\<open>[0]\<close>,
  \<^verbatim>\<open>.slice\<close>, \<^verbatim>\<open>.length\<close>, a spread): a TypeError when the layout or its lists are
  undefined.
\<close>

definition currentLists :: "Component \<Rightarrow> js_error + LayoutList list" where
  "currentLists st =
     (case currentLayout st of
        None \<Rightarrow> Inl TypeError
      | Some layout \<Rightarrow> (case listsL layout of None \<Rightarrow> Inl TypeError | Some ls \<Rightarrow> Inr ls))"

text \<open>The setter: the new config goes into the state and, serialised, under its name into the storage.\<close>

definition setCurrentLayout :: "Component \<Rightarrow> CustomizableLayout \<Rightarrow> Component" where
  "setCurrentLayout st newVal =
     (let updatedLayout = set_variant (layoutState st) (layoutType st) (Some newVal)
      in st\<lparr>layoutState := updatedLayout,
             localStorage := (localStorage st)(name updatedLayout \<mapsto> WellFormed (JConfig updatedLayout))\<rparr>)"

text \<open>\<^verbatim>\<open>getConnectedToString\<close> reads the names of the current layout, whatever layout is being connected.\<close>

definition getConnectedToString :: "Component \<Rightarrow> string \<Rightarrow> js_error + string list" where
  "getConnectedToString st self =
     (case currentLists st of
        Inl e \<Rightarrow> Inl e
      | Inr ls \<Rightarrow> Inr (filter (\<lambda>cn. cn \<noteq> self) (map containerName ls)))"

text \<open>
  \<^verbatim>\<open>getConnectedLists\<close>: \<^verbatim>\<open>layout?.lists.map(...)\<close> is undefined for an undefined
  layout and throws for a layout without lists.
\<close>

definition getConnectedLists :: "Component \<Rightarrow> CustomizableLayout option \<Rightarrow> js_error + CustomizableLayout" where
  "getConnectedLists st layout =
     (case layout of
        None \<Rightarrow> Inr \<lparr>listsL = None\<rparr>
      | Some lay \<Rightarrow>
          (case listsL lay of
             None \<Rightarrow> Inl TypeError
           | Some ls \<Rightarrow>
               (case mapE (\<lambda>l. case getConnectedToString st (containerName l) of
                                  Inl e \<Rightarrow> Inl e
                                | Inr c \<Rightarrow> Inr (l\<lparr>connectedTo := c\<rparr>)) ls of
                  Inl e \<Rightarrow> Inl e
                | Inr ls' \<Rightarrow> Inr (lay\<lparr>listsL := Some ls'\<rparr>))))"

definition updateLayout :: "Component \<Rightarrow> js_error + Component" where
  "updateLayout st =
     (case getConnectedLists st (currentLayout st) of
        Inl e \<Rightarrow> Inl e
      | Inr lay \<Rightarrow> Inr (setCurrentLayout st lay))"

text \<open>\<^verbatim>\<open>getEmptyList\<close>; the argument is the value \<^verbatim>\<open>createGuid()\<close> returns.\<close>

definition getEmptyList :: "string \<Rightarrow> LayoutList" where
  "getEmptyList guid = \<lparr>items = [], width = ''1fr'', connectedTo = [], containerName = guid\<rparr>"

subsection \<open>Mutators\<close>

text \<open>
  The event of a finished drag: the id and the data array of the two drop lists, the
  two indices, and whether \<^verbatim>\<open>event.previousContainer === event.container\<close>.
\<close>

record CdkDragDrop =
  previousContainerId :: string
  previousContainerData :: "LayoutElement list"
  containerId :: string
  containerData :: "LayoutElement list"
  previousIndex :: int
  currentIndex :: int
  sameContainer :: bool

text \<open>
  \<^verbatim>\<open>drop\<close>. An id that \<^verbatim>\<open>indexOf\<close> does not find gives \<open>-1\<close>, and the assignment
  to \<^verbatim>\<open>layout.lists[-1].items\<close> throws. The layout is not connected again. The CDK
  helpers change the data arrays of the event in place; the lists found by the ids then
  get copies of the changed arrays. The model follows these assignments. It does not
  follow a change made through an array that belongs to a list other than the one its
  id names (see \<open>boundTo\<close>), nor the state that a throw leaves behind.
\<close>

definition drop_event :: "CdkDragDrop \<Rightarrow> Component \<Rightarrow> js_error + Component" where
  "drop_event event st =
     (case currentLayout st of
        None \<Rightarrow> Inl TypeError
      | Some layout \<Rightarrow>
          (case listsL layout of
             None \<Rightarrow> Inl TypeError
           | Some ls \<Rightarrow>
               (if sameContainer event then
                  (let data = moveItemInArray (containerData event) (previousIndex event)
                                (currentIndex event)
                   in case indexOf (map containerName ls) (containerId event) of
                        None \<Rightarrow> Inl TypeError
                      | Some index \<Rightarrow>
                          Inr (setCurrentLayout st
                                 (layout\<lparr>listsL := Some (ls[index := (ls ! index)\<lparr>items := data\<rparr>])\<rparr>)))
                else
                  (let (prevData, currData) =
                         transferArrayItem (previousContainerData event) (containerData event)
                           (previousIndex event) (currentIndex event)
                   in case indexOf (map containerName ls) (previousContainerId event) of
                        None \<Rightarrow> Inl TypeError
                      | Some prevListIndex \<Rightarrow>
                          (case indexOf (map containerName ls) (containerId event) of
                             None \<Rightarrow> Inl TypeError
                           | Some currListIndex \<Rightarrow>
                               (let ls1 = ls[prevListIndex := (ls ! prevListIndex)\<lparr>items := prevData\<rparr>];
                                    ls2 = ls1[currListIndex := (ls1 ! currListIndex)\<lparr>items := currData\<rparr>]
                                in Inr (setCurrentLayout st (layout\<lparr>listsL := Some ls2\<rparr>))))))))"

definition addColumnRightPressed :: "string \<Rightarrow> Component \<Rightarrow> js_error + Component" where
  "addColumnRightPressed guid st =
     (case currentLayout st of
        None \<Rightarrow> Inl TypeError
      | Some layout \<Rightarrow>
          (case listsL layout of
             None \<Rightarrow> Inl TypeError
           | Some ls \<Rightarrow>
               updateLayout (setCurrentLayout st (layout\<lparr>listsL := Some (ls @ [getEmptyList guid])\<rparr>))))"

definition addColumnLeftPressed :: "string \<Rightarrow> Component \<Rightarrow> js_error + Component" where
  "addColumnLeftPressed guid st =
     (case currentLayout st of
        None \<Rightarrow> Inl TypeError
      | Some layout \<Rightarrow>
          (case listsL layout of
             None \<Rightarrow> Inl TypeError
           | Some ls \<Rightarrow>
               updateLayout (setCurrentLayout st (layout\<lparr>listsL := Some (getEmptyList guid # ls)\<rparr>))))"

text \<open>
  \<^verbatim>\<open>removeColumnLeftPressed\<close>: \<^verbatim>\<open>lists[0].items\<close> throws on a layout without a
  list, and after \<^verbatim>\<open>slice(1)\<close> it throws again when no list is left to take the items.
\<close>

definition removeColumnLeftPressed :: "Component \<Rightarrow> js_error + Component" where
  "removeColumnLeftPressed st =
     (case currentLayout st of
        None \<Rightarrow> Inl TypeError
      | Some layout \<Rightarrow>
          (case listsL layout of
             None \<Rightarrow> Inl TypeError
           | Some [] \<Rightarrow> Inl TypeError
           | Some (removed # rest) \<Rightarrow>
               (let spillOver = items removed in
                case rest of
                  [] \<Rightarrow> Inl TypeError
                | survivor # others \<Rightarrow>
                    updateLayout
                      (setCurrentLayout st
                         (layout\<lparr>listsL := Some (survivor\<lparr>items := items survivor @ spillOver\<rparr> # others)\<rparr>)))))"

text \<open>
  \<^verbatim>\<open>removeColumnRightPressed\<close>: the same from the other end, with \<^verbatim>\<open>pop\<close>.
\<close>

definition removeColumnRightPressed :: "Component \<Rightarrow> js_error + Component" where
  "removeColumnRightPressed st =
     (case currentLayout st of
        None \<Rightarrow> Inl TypeError
      | Some layout \<Rightarrow>
          (case listsL layout of
             None \<Rightarrow> Inl TypeError
           | Some ls \<Rightarrow>
               (if ls = [] then Inl TypeError
                else
                  (let spillOver = items (last ls);
                       popped = butlast ls
                   in if popped = [] then Inl TypeError
                      else
                        updateLayout
                          (setCurrentLayout st
                             (layout\<lparr>listsL :=
                                Some (butlast popped @
                                      [(last popped)\<lparr>items := items (last popped) @ spillOver\<rparr>])\<rparr>))))))"

text \<open>
  \<^verbatim>\<open>resetPressed\<close>: the default layout of the breakpoint goes through
  \<^verbatim>\<open>getConnectedLists\<close> while the current layout is still the one being discarded.
\<close>

definition resetPressed :: "Component \<Rightarrow> js_error + Component" where
  "resetPressed st =
     (case getConnectedLists st (variant (defaultLayout st) (layoutType st)) of
        Inl e \<Rightarrow> Inl e
      | Inr lay \<Rightarrow> Inr (setCurrentLayout st (createCopy lay)))"

text \<open>
  The getter \<^verbatim>\<open>currentColumns\<close>: \<^verbatim>\<open>reduce\<close> from the left, starting with the
  empty string.
\<close>

definition currentColumns :: "Component \<Rightarrow> js_error + string" where
  "currentColumns st =
     (case currentLists st of
        Inl e \<Rightarrow> Inl e
      | Inr ls \<Rightarrow> Inr (foldl (\<lambda>cur prev. cur @ '' '' @ prev) [] (map width ls)))"

section \<open>Reference definitions and example layouts\<close>

text \<open>
  The widths joined by single spaces, as the description of the grid-track string has
  it (\<^verbatim>\<open>Array.prototype.join(' ')\<close>).
\<close>

fun spaceJoined :: "string list \<Rightarrow> string" where
  "spaceJoined [] = []"
| "spaceJoined [w] = w"
| "spaceJoined (w # ws) = w @ '' '' @ spaceJoined ws"


text \<open>
  A list is connected in a layout when its \<^verbatim>\<open>connectedTo\<close> holds exactly the other
  container names of the layout.
\<close>

definition connectedIn :: "LayoutList list \<Rightarrow> LayoutList \<Rightarrow> bool" where
  "connectedIn ls l =
     (set (connectedTo l) = set (map containerName ls) - {containerName l})"

text \<open>Builders for the concrete layouts of the examples below.\<close>

definition mkElement :: "string \<Rightarrow> LayoutElement" where
  "mkElement n = \<lparr>componentName = n, metadata = []\<rparr>"

definition mkList :: "string \<Rightarrow> string list \<Rightarrow> LayoutList" where
  "mkList cn ns =
     \<lparr>items = map mkElement ns, width = ''1fr'', connectedTo = [], containerName = cn\<rparr>"

definition mkConfig :: "int \<Rightarrow> LayoutList list \<Rightarrow> CustomizableLayoutConfig" where
  "mkConfig v ls =
     \<lparr>name = ''dashboard'', version = v, mobile = Some \<lparr>listsL = Some ls\<rparr>,
      tablet = None, desktop = None\<rparr>"

definition mkComponent :: "LayoutList list \<Rightarrow> LayoutList list \<Rightarrow> Component" where
  "mkComponent dls ls =
     \<lparr>defaultLayout = mkConfig 1 dls, layoutState = mkConfig 1 ls, layoutType = Mobile,
      localStorage = Map.empty\<rparr>"

definition storageWith :: "stored_text \<Rightarrow> string \<Rightarrow> stored_text option" where
  "storageWith t = [''dashboard'' \<mapsto> t]"



text \<open>
  The config is reconciled for a breakpoint: \<^verbatim>\<open>addMissingComponentsToStoredLayout\<close>
  returns at once because a variant is undefined, or the missing names it computes are
  none.
\<close>

definition reconciledVariant ::
  "CustomizableLayoutConfig \<Rightarrow> CustomizableLayoutConfig \<Rightarrow> LayoutType \<Rightarrow> bool" where
  "reconciledVariant stored dflt t =
     (case variant stored t of
        None \<Rightarrow> True
      | Some sl \<Rightarrow>
          (case variant dflt t of
             None \<Rightarrow> True
           | Some dl \<Rightarrow>
               (case listsL sl of
                  None \<Rightarrow> False
                | Some sls \<Rightarrow>
                    (case listsL dl of
                       None \<Rightarrow> False
                     | Some dls \<Rightarrow> missingElementNames dls sls = []))))"

text \<open>
  The lists \<open>ls\<close>, each connected to the names \<open>names\<close> other than its own: what
  \<^verbatim>\<open>getConnectedLists\<close> makes of \<open>ls\<close> while the current layout has the container
  names \<open>names\<close>.
\<close>

definition connectedAgainst :: "string list \<Rightarrow> LayoutList list \<Rightarrow> LayoutList list" where
  "connectedAgainst names ls =
     map (\<lambda>l. l\<lparr>connectedTo := filter (\<lambda>cn. cn \<noteq> containerName l) names\<rparr>) ls"

text \<open>
  Modelled from the spec: the template that binds the drop lists of the CDK to the
  layout is not among the sources. The spec: a drag-drop completion event carries the
  previous container id, the current container id, the previous index, the current
  index, and whether the two containers are the same object; the lists are located by
  containerName. So the drop list with id \<open>cid\<close> shows the list of that name, its
  data array is the items of that list, and two containers are the same object
  exactly when their ids are equal.
\<close>

definition dataOf :: "LayoutList list \<Rightarrow> string \<Rightarrow> LayoutElement list" where
  "dataOf ls cid =
     (case find (\<lambda>l. containerName l = cid) ls of None \<Rightarrow> [] | Some l \<Rightarrow> items l)"

definition dragEvent :: "LayoutList list \<Rightarrow> string \<Rightarrow> string \<Rightarrow> int \<Rightarrow> int \<Rightarrow> CdkDragDrop" where
  "dragEvent ls prevId currId fromIndex toIndex =
     \<lparr>previousContainerId = prevId, previousContainerData = dataOf ls prevId,
      containerId = currId, containerData = dataOf ls currId,
      previousIndex = fromIndex, currentIndex = toIndex,
      sameContainer = (prevId = currId)\<rparr>"

text \<open>
  The operations of the layout mutator, as one type, and their dispatch. A drag names
  the container it starts in, the container it ends in and the two indices: a move
  within a list when the two names are equal, a transfer otherwise. Its event is the
  one the drop lists of the current layout produce.
\<close>

datatype Mutation =
    Drag string string int int
  | AddColumnRight string
  | AddColumnLeft string
  | RemoveColumnLeft
  | RemoveColumnRight
  | Reset

fun mutate :: "Mutation \<Rightarrow> Component \<Rightarrow> js_error + Component" where
  "mutate (Drag prevId currId fromIndex toIndex) st =
     drop_event
       (dragEvent (case currentLists st of Inl e \<Rightarrow> [] | Inr ls \<Rightarrow> ls)
          prevId currId fromIndex toIndex) st"
| "mutate (AddColumnRight guid) st = addColumnRightPressed guid st"
| "mutate (AddColumnLeft guid) st = addColumnLeftPressed guid st"
| "mutate RemoveColumnLeft st = removeColumnLeftPressed st"
| "mutate RemoveColumnRight st = removeColumnRightPressed st"
| "mutate Reset st = resetPressed st"


text \<open>
  The condition under which an operation is considered: the containers of a drag are
  present in the layout, a column is removed only from a layout with at least two
  lists.
\<close>

fun applicable :: "Mutation \<Rightarrow> LayoutList list \<Rightarrow> bool" where
  "applicable (Drag prevId currId fromIndex toIndex) ls =
     (prevId \<in> set (map containerName ls) \<and> currId \<in> set (map containerName ls))"
| "applicable RemoveColumnLeft ls = (2 \<le> length ls)"
| "applicable RemoveColumnRight ls = (2 \<le> length ls)"
| "applicable _ ls = True"

text \<open>Running one operation after another, and reading the lists of the outcome.\<close>

definition andThen ::
  "js_error + Component \<Rightarrow> (Component \<Rightarrow> js_error + Component) \<Rightarrow> js_error + Component" where
  "andThen r f = (case r of Inl e \<Rightarrow> Inl e | Inr st \<Rightarrow> f st)"

definition currentListsOf :: "js_error + Component \<Rightarrow> js_error + LayoutList list" where
  "currentListsOf r = (case r of Inl e \<Rightarrow> Inl e | Inr st \<Rightarrow> currentLists st)"

text \<open>
  The lists of the default layout of the current breakpoint, when the default config
  has a layout for it.
\<close>

definition defaultLists :: "Component \<Rightarrow> LayoutList list option" where
  "defaultLists st =
     (case variant (defaultLayout st) (layoutType st) of
        None \<Rightarrow> None
      | Some dl \<Rightarrow> listsL dl)"

subsection \<open>Reconciliation as the description has it\<close>

text \<open>
  The steps of the reconciler in the words of the description, on lists: the names of
  a variant are those of the items of its lists, flattened; the missing names are the
  default's names that are not among the stored names, in the default's order; the
  origin of a missing name is the first default list that holds it, and its index the
  place of its first item of that name; the component goes into the stored list with
  the origin's container name at that index, or in front when the index exceeds the
  number of items of that list; without such a list nothing is inserted.
\<close>

definition specNames :: "LayoutList list \<Rightarrow> string list" where
  "specNames ls = concat (map (\<lambda>l. map componentName (items l)) ls)"

definition specMissing :: "LayoutList list \<Rightarrow> LayoutList list \<Rightarrow> string list" where
  "specMissing dls sls = filter (\<lambda>n. n \<notin> set (specNames sls)) (specNames dls)"

definition specPlace :: "LayoutList list \<Rightarrow> LayoutList list \<Rightarrow> string \<Rightarrow> LayoutList list" where
  "specPlace dls sls m =
     (case find (\<lambda>l. m \<in> set (map componentName (items l))) dls of
        None \<Rightarrow> sls
      | Some origin \<Rightarrow>
          (let i = length (takeWhile (\<lambda>e. componentName e \<noteq> m) (items origin));
               k = length (takeWhile (\<lambda>l. containerName l \<noteq> containerName origin) sls)
           in if k < length sls then
                sls[k := (sls ! k)\<lparr>items :=
                  (if length (items (sls ! k)) < i then items origin ! i # items (sls ! k)
                   else take i (items (sls ! k)) @ items origin ! i # drop i (items (sls ! k)))\<rparr>]
              else sls))"

definition specReconcile :: "LayoutList list \<Rightarrow> LayoutList list \<Rightarrow> LayoutList list" where
  "specReconcile dls sls = foldl (specPlace dls) sls (specMissing dls sls)"

section \<open>Properties\<close>

subsection \<open>Breakpoint selection\<close>

text \<open>
  C9. For every viewport width the selector gives Mobile when the width is at most
  \<^verbatim>\<open>tabletBreakpoint\<close> and Tablet otherwise, so Desktop is never selected; with the
  breakpoint at 990, width 500 selects Mobile and width 1200 selects Tablet.
\<close>

theorem selectLayoutType_spec:
  "(w \<le> tb \<longrightarrow> selectLayoutType tb w = Mobile) \<and>
   (tb < w \<longrightarrow> selectLayoutType tb w = Tablet) \<and>
   selectLayoutType tb w \<noteq> Desktop \<and>
   selectLayoutType 990 500 = Mobile \<and>
   selectLayoutType 990 1200 = Tablet"
  by (simp add: selectLayoutType_def)

theorem selectLayoutType_spec_witness:
  "selectLayoutType 990 990 = Mobile \<and> selectLayoutType 990 991 = Tablet \<and>
   selectLayoutType 990 991 \<noteq> Desktop"
  using selectLayoutType_spec [where tb = 990 and w = 990]
    selectLayoutType_spec [where tb = 990 and w = 991]
  by simp

subsection \<open>Example states\<close>

lemma currentLists_mkComponent: "currentLists (mkComponent dls ls) = Inr ls"
  by (simp add: currentLists_def currentLayout_def mkComponent_def mkConfig_def)

subsection \<open>The grid-track string\<close>

lemma foldl_space:
  "foldl (\<lambda>cur prev. cur @ CHR '' '' # prev) acc ws =
     acc @ concat (map (\<lambda>w. CHR '' '' # w) ws)"
  by (induction ws arbitrary: acc) auto

lemma concat_space_joined:
  "ws \<noteq> [] \<Longrightarrow> concat (map (\<lambda>w. CHR '' '' # w) ws) = CHR '' '' # spaceJoined ws"
  by (induction ws rule: spaceJoined.induct) auto

lemma reduce_widths:
  "foldl (\<lambda>cur prev. cur @ CHR '' '' # prev) [] ws =
     (if ws = [] then [] else CHR '' '' # spaceJoined ws)"
  using foldl_space [of "[]" ws] concat_space_joined [of ws] by simp

text \<open>
  C5, as the code has it. For a current layout whose lists have the widths
  \<open>w1, ..., wn\<close>, the grid-track string is empty when there is no list and otherwise
  one space followed by the widths joined by single spaces: \<^verbatim>\<open>reduce\<close> starts from
  the empty string and puts a space before every width, the first included.
\<close>

theorem currentColumns_leading_space:
  assumes "currentLists st = Inr ls"
  shows "currentColumns st =
           Inr (if ls = [] then [] else '' '' @ spaceJoined (map width ls))"
  using assms by (simp add: currentColumns_def reduce_widths)

theorem currentColumns_leading_space_witness:
  "currentColumns (mkComponent [] [mkList ''A'' [''x''], mkList ''B'' []]) = Inr '' 1fr 1fr''"
  using currentColumns_leading_space
    [OF currentLists_mkComponent, of "[]" "[mkList ''A'' [''x''], mkList ''B'' []]"]
  by (simp add: mkList_def)

text \<open>
  With two lists of width \<^verbatim>\<open>1fr\<close> the string is not the widths joined by single
  spaces: it starts with a space.
\<close>

theorem currentColumns_not_joined:
  "currentColumns (mkComponent [] [mkList ''A'' [''x''], mkList ''B'' []])
     \<noteq> Inr (spaceJoined (map width [mkList ''A'' [''x''], mkList ''B'' []]))"
  by (simp add: currentColumns_def currentLists_mkComponent mkList_def)

subsection \<open>Removing the only column\<close>

text \<open>
  C10. On a current layout with fewer than two lists, and so on every layout with
  exactly one list, \<^verbatim>\<open>removeColumnLeftPressed\<close> and \<^verbatim>\<open>removeColumnRightPressed\<close>
  both end in a TypeError (the surviving list whose items would take the spillover is
  undefined); neither returns a state.
\<close>

theorem removeColumn_single_list_throws:
  assumes "currentLists st = Inr ls" and "length ls < 2"
  shows "removeColumnLeftPressed st = Inl TypeError \<and>
         removeColumnRightPressed st = Inl TypeError"
proof -
  from assms(1) obtain lay where lay: "currentLayout st = Some lay" "listsL lay = Some ls"
    by (auto simp: currentLists_def split: option.splits)
  from assms(2) consider "ls = []" | l where "ls = [l]"
    by (cases ls; cases "tl ls") auto
  then show ?thesis
    by cases (simp_all add: lay removeColumnLeftPressed_def removeColumnRightPressed_def)
qed

theorem removeColumn_single_list_throws_witness:
  "removeColumnLeftPressed (mkComponent [] [mkList ''A'' [''x'']]) = Inl TypeError \<and>
   removeColumnRightPressed (mkComponent [] [mkList ''A'' [''x'']]) = Inl TypeError"
  using removeColumn_single_list_throws
    [OF currentLists_mkComponent, of "[mkList ''A'' [''x'']]" "[]"]
  by simp

subsection \<open>Initialization\<close>

text \<open>
  C2, as the code has it. When nothing is stored under the name of the layout,
  \<^verbatim>\<open>initializeState\<close> raises no error and adopts a copy of the default config. When
  the stored text is malformed JSON, the SyntaxError of \<^verbatim>\<open>JSON.parse\<close> leaves
  \<^verbatim>\<open>initializeState\<close> and no working state is adopted.
\<close>

theorem initializeState_absent_or_malformed:
  "initializeState d (storage(name d := None)) =
     Inr \<lparr>defaultLayout = d, layoutState = createCopy d, layoutType = Mobile,
          localStorage = storage(name d := None)\<rparr> \<and>
   initializeState d (storage(name d \<mapsto> Malformed)) = Inl SyntaxError"
  by (simp add: initializeState_def JSON_parse_def)

theorem initializeState_absent_or_malformed_witness:
  "initializeState (mkConfig 1 [mkList ''A'' [''x'']]) Map.empty =
     Inr (mkComponent [mkList ''A'' [''x'']] [mkList ''A'' [''x'']])"
  using initializeState_absent_or_malformed [of "mkConfig 1 [mkList ''A'' [''x'']]" Map.empty]
  by (simp add: mkComponent_def createCopy_def)

text \<open>Malformed text under the key: the error is not absorbed.\<close>

theorem initializeState_malformed_throws:
  "initializeState (mkConfig 1 [mkList ''A'' [''x'']]) (storageWith Malformed) = Inl SyntaxError"
  by (simp add: initializeState_def JSON_parse_def storageWith_def mkConfig_def)

lemma reconcile_older_stored:
  "reconcileStored (mkConfig 1 [mkList ''A'' [''x''], mkList ''G'' []])
     (mkConfig 2 [mkList ''A'' [''x'', ''y'']]) =
   Inr (mkConfig 1 [mkList ''A'' [''x'', ''y''], mkList ''G'' []])"
  by code_simp

lemma reconcile_newer_stored:
  "reconcileStored (mkConfig 3 [mkList ''A'' [''x''], mkList ''G'' []])
     (mkConfig 2 [mkList ''A'' [''x'', ''y'']]) =
   Inr (mkConfig 3 [mkList ''A'' [''x'', ''y''], mkList ''G'' []])"
  by code_simp

text \<open>
  C1, as the code has it. A stored config that passes the validity predicate is
  reconciled and adopted when the version of the default is less than or equal to its
  own version (an error of the reconciliation leaves \<^verbatim>\<open>initializeState\<close>). When its
  version is strictly less than the version of the default, reconciliation is skipped
  and a copy of the default config is adopted.
\<close>

theorem initializeState_version_gate:
  assumes "storage (name d) = Some (WellFormed (JConfig s))"
    and "isCustomizableLayoutConfig (JConfig s)"
  shows "(version d \<le> version s \<longrightarrow>
            initializeState d storage =
              (case reconcileStored s d of
                 Inl e \<Rightarrow> Inl e
               | Inr r \<Rightarrow> Inr \<lparr>defaultLayout = d, layoutState = r, layoutType = Mobile,
                               localStorage = storage\<rparr>)) \<and>
         (version s < version d \<longrightarrow>
            initializeState d storage =
              Inr \<lparr>defaultLayout = d, layoutState = createCopy d, layoutType = Mobile,
                   localStorage = storage\<rparr>)"
  using assms by (simp add: initializeState_def JSON_parse_def)

theorem initializeState_version_gate_witness:
  "initializeState (mkConfig 2 [mkList ''A'' [''x'', ''y'']])
     (storageWith (WellFormed (JConfig (mkConfig 3 [mkList ''A'' [''x''], mkList ''G'' []])))) =
   Inr \<lparr>defaultLayout = mkConfig 2 [mkList ''A'' [''x'', ''y'']],
        layoutState = mkConfig 3 [mkList ''A'' [''x'', ''y''], mkList ''G'' []],
        layoutType = Mobile,
        localStorage =
          storageWith (WellFormed (JConfig (mkConfig 3 [mkList ''A'' [''x''], mkList ''G'' []])))\<rparr> \<and>
   initializeState (mkConfig 2 [mkList ''A'' [''x'', ''y'']])
     (storageWith (WellFormed (JConfig (mkConfig 1 [mkList ''A'' [''x''], mkList ''G'' []])))) =
   Inr \<lparr>defaultLayout = mkConfig 2 [mkList ''A'' [''x'', ''y'']],
        layoutState = mkConfig 2 [mkList ''A'' [''x'', ''y'']],
        layoutType = Mobile,
        localStorage =
          storageWith (WellFormed (JConfig (mkConfig 1 [mkList ''A'' [''x''], mkList ''G'' []])))\<rparr>"
proof -
  have n: "name (mkConfig v ls) = ''dashboard''" "version (mkConfig v ls) = v"
    "mobile (mkConfig v ls) = Some \<lparr>listsL = Some ls\<rparr>" for v ls
    by (simp_all add: mkConfig_def)
  have s: "storageWith t ''dashboard'' = Some t" for t
    by (simp add: storageWith_def)
  show ?thesis
    using initializeState_version_gate
        [of "storageWith (WellFormed (JConfig (mkConfig 3 [mkList ''A'' [''x''], mkList ''G'' []])))"
            "mkConfig 2 [mkList ''A'' [''x'', ''y'']]"
            "mkConfig 3 [mkList ''A'' [''x''], mkList ''G'' []]"]
      initializeState_version_gate
        [of "storageWith (WellFormed (JConfig (mkConfig 1 [mkList ''A'' [''x''], mkList ''G'' []])))"
            "mkConfig 2 [mkList ''A'' [''x'', ''y'']]"
            "mkConfig 1 [mkList ''A'' [''x''], mkList ''G'' []]"]
    by (simp add: n s reconcile_newer_stored createCopy_def)
qed

text \<open>
  A valid stored config of version 1 against a default of version 2: its version is
  less than or equal to the default's, yet it is not reconciled and adopted; the
  default is, and the column the user added is gone. A valid stored config of version
  3, strictly greater than the default's, is reconciled and adopted.
\<close>

theorem initializeState_older_stored_discarded:
  "version (mkConfig 1 [mkList ''A'' [''x''], mkList ''G'' []])
     \<le> version (mkConfig 2 [mkList ''A'' [''x'', ''y'']]) \<and>
   isCustomizableLayoutConfig (JConfig (mkConfig 1 [mkList ''A'' [''x''], mkList ''G'' []])) \<and>
   reconcileStored (mkConfig 1 [mkList ''A'' [''x''], mkList ''G'' []])
     (mkConfig 2 [mkList ''A'' [''x'', ''y'']]) =
     Inr (mkConfig 1 [mkList ''A'' [''x'', ''y''], mkList ''G'' []]) \<and>
   map_sum id layoutState
     (initializeState (mkConfig 2 [mkList ''A'' [''x'', ''y'']])
        (storageWith (WellFormed (JConfig (mkConfig 1 [mkList ''A'' [''x''], mkList ''G'' []])))))
     = Inr (mkConfig 2 [mkList ''A'' [''x'', ''y'']]) \<and>
   mkConfig 2 [mkList ''A'' [''x'', ''y'']]
     \<noteq> mkConfig 1 [mkList ''A'' [''x'', ''y''], mkList ''G'' []] \<and>
   version (mkConfig 2 [mkList ''A'' [''x'', ''y'']])
     < version (mkConfig 3 [mkList ''A'' [''x''], mkList ''G'' []]) \<and>
   map_sum id layoutState
     (initializeState (mkConfig 2 [mkList ''A'' [''x'', ''y'']])
        (storageWith (WellFormed (JConfig (mkConfig 3 [mkList ''A'' [''x''], mkList ''G'' []])))))
     = Inr (mkConfig 3 [mkList ''A'' [''x'', ''y''], mkList ''G'' []]) \<and>
   mkConfig 3 [mkList ''A'' [''x'', ''y''], mkList ''G'' []]
     \<noteq> createCopy (mkConfig 2 [mkList ''A'' [''x'', ''y'']])"
proof -
  have n: "name (mkConfig v ls) = ''dashboard''" "version (mkConfig v ls) = v"
    "mobile (mkConfig v ls) = Some \<lparr>listsL = Some ls\<rparr>" for v ls
    by (simp_all add: mkConfig_def)
  have s: "storageWith t ''dashboard'' = Some t" for t
    by (simp add: storageWith_def)
  have d: "mkConfig v ls \<noteq> mkConfig w ks" if "v \<noteq> w" for v w ls ks
    using that by (simp add: mkConfig_def)
  show ?thesis
    by (simp add: n s d initializeState_def JSON_parse_def reconcile_older_stored
        reconcile_newer_stored createCopy_def)
qed

subsection \<open>Reconciliation\<close>

lemma findIndex_None_iff: "findIndex p xs = None \<longleftrightarrow> (\<forall>x \<in> set xs. \<not> p x)"
  by (induction xs) auto

lemma findIndex_Some:
  "findIndex p xs = Some i \<Longrightarrow> i < length xs \<and> p (xs ! i) \<and> (\<forall>j < i. \<not> p (xs ! j))"
proof (induction xs arbitrary: i)
  case Nil
  then show ?case by simp
next
  case (Cons x xs)
  show ?case
  proof (cases "p x")
    case True
    with Cons.prems show ?thesis by simp
  next
    case False
    with Cons.prems obtain k where k: "findIndex p xs = Some k" "i = Suc k"
      by auto
    from Cons.IH [OF k(1)] False k(2) show ?thesis
      by (auto simp: nth_Cons split: nat.splits)
  qed
qed

lemma indexOf_None_iff: "indexOf xs x = None \<longleftrightarrow> x \<notin> set xs"
  by (auto simp: indexOf_def findIndex_None_iff)

lemma find_None_findIndex: "find p xs = None \<longleftrightarrow> findIndex p xs = None"
  by (auto simp: find_None_iff findIndex_None_iff)

lemma set_firstOccurrences: "set (firstOccurrences xs) = set xs"
  by (simp add: firstOccurrences_def)

lemma set_ownKeys: "set (ownKeys ks) = set ks"
  by (auto simp: ownKeys_def)

lemma map_of_groupBy:
  "map_of (groupBy ls) k =
     (if k \<in> containerName ` set ls then Some (filter (\<lambda>l. containerName l = k) ls) else None)"
  by (simp add: groupBy_def map_of_map_restrict set_firstOccurrences restrict_map_def)

lemma keys_groupBy: "fst ` set (groupBy ls) = containerName ` set ls"
  by (simp add: groupBy_def set_firstOccurrences image_comp comp_def)

lemma find_filter_same: "find p (filter p xs) = find p xs"
  by (induction xs) auto

lemma find_Some_filter: "find p xs = Some x \<Longrightarrow> \<exists>rest. filter p xs = x # rest"
  by (induction xs) (auto split: if_splits)

lemma originContainer_group:
  assumes "originContainer dls m = Some cn"
  shows "\<exists>first rest i.
           map_of (groupBy dls) cn = Some (first # rest) \<and>
           find (\<lambda>l. containerName l = cn) dls = Some first \<and>
           findIndex (\<lambda>e. componentName e = m) (items first) = Some i"
proof -
  from assms have "holdsComponent m (filter (\<lambda>l. containerName l = cn) dls) cn"
    and in_names: "cn \<in> containerName ` set dls"
    by (auto simp: originContainer_def findKey_def find_Some_iff map_of_groupBy
        split: option.splits if_splits)
  then obtain first where first: "find (\<lambda>l. containerName l = cn) dls = Some first"
    and holds: "find (\<lambda>i. componentName i = m) (items first) \<noteq> None"
    by (auto simp: holdsComponent_def find_filter_same split: option.splits)
  from find_Some_filter [OF first] obtain rest
    where "filter (\<lambda>l. containerName l = cn) dls = first # rest" ..
  with in_names have "map_of (groupBy dls) cn = Some (first # rest)"
    by (simp add: map_of_groupBy)
  moreover from holds obtain i where "findIndex (\<lambda>e. componentName e = m) (items first) = Some i"
    by (auto simp: find_None_findIndex)
  ultimately show ?thesis using first by blast
qed

lemma insertMissing_Inl: "insertMissing dls sls m = Inl e \<Longrightarrow> e = TypeError"
  by (cases e) (auto simp: insertMissing_def Let_def split: option.splits list.splits)

lemma insertMissing_eq:
  assumes "originContainer dls m = Some cn"
  obtains first i where
    "find (\<lambda>l. containerName l = cn) dls = Some first"
    "findIndex (\<lambda>e. componentName e = m) (items first) = Some i"
    "insertMissing dls sls m =
       (case find (\<lambda>l. containerName l = cn) sls of
          None \<Rightarrow> Inl TypeError
        | Some sl \<Rightarrow>
            Inr (updateFirst (\<lambda>l. containerName l = cn)
                   (\<lambda>l. l\<lparr>items := splice_insert (if length (items sl) < i then 0 else i)
                                      (items first ! i) (items l)\<rparr>) sls))"
proof -
  from originContainer_group [OF assms] obtain first rest i where
    g: "map_of (groupBy dls) cn = Some (first # rest)"
    and f: "find (\<lambda>l. containerName l = cn) dls = Some first"
    and i: "findIndex (\<lambda>e. componentName e = m) (items first) = Some i"
    by blast
  have "insertMissing dls sls m =
       (case find (\<lambda>l. containerName l = cn) sls of
          None \<Rightarrow> Inl TypeError
        | Some sl \<Rightarrow>
            Inr (updateFirst (\<lambda>l. containerName l = cn)
                   (\<lambda>l. l\<lparr>items := splice_insert (if length (items sl) < i then 0 else i)
                                      (items first ! i) (items l)\<rparr>) sls))"
    using assms g i by (auto simp: insertMissing_def Let_def split: option.splits)
  with f i show thesis by (rule that)
qed

lemma elementNames_simps [simp]:
  "elementNames [] = []"
  "elementNames (l # ls) = map componentName (items l) @ elementNames ls"
  "elementNames (ks @ ls) = elementNames ks @ elementNames ls"
  by (simp_all add: elementNames_def)

lemma set_splice_insert: "set (splice_insert i e xs) = insert e (set xs)"
proof -
  have "set (take i xs) \<union> set (drop i xs) = set xs"
    by (metis append_take_drop_id set_append)
  then show ?thesis unfolding splice_insert_def by auto
qed

lemma updateFirst_split:
  "find p ls = Some l \<Longrightarrow>
     \<exists>pre post. ls = pre @ l # post \<and> (\<forall>x \<in> set pre. \<not> p x) \<and>
       updateFirst p f ls = pre @ f l # post"
proof (induction ls)
  case Nil
  then show ?case by simp
next
  case (Cons x xs)
  show ?case
  proof (cases "p x")
    case True
    with Cons.prems have "x = l" by simp
    with True have "x # xs = [] @ l # xs \<and> (\<forall>y \<in> set []. \<not> p y) \<and>
        updateFirst p f (x # xs) = [] @ f l # xs" by simp
    then show ?thesis by blast
  next
    case False
    with Cons.prems have "find p xs = Some l" by simp
    from Cons.IH [OF this] obtain pre post where
      "xs = pre @ l # post" "\<forall>y \<in> set pre. \<not> p y" "updateFirst p f xs = pre @ f l # post"
      by blast
    with False have "x # xs = (x # pre) @ l # post \<and> (\<forall>y \<in> set (x # pre). \<not> p y) \<and>
        updateFirst p f (x # xs) = (x # pre) @ f l # post" by simp
    then show ?thesis by blast
  qed
qed

lemma updateFirst_containerNames:
  "(\<And>l. containerName (f l) = containerName l) \<Longrightarrow>
     map containerName (updateFirst p f ls) = map containerName ls"
  by (induction ls) auto

lemma insertMissing_Inr:
  assumes "insertMissing dls sls m = Inr sls'"
  shows "map containerName sls' = map containerName sls \<and>
         set (elementNames sls') = insert m (set (elementNames sls))"
proof -
  from assms obtain cn where cn: "originContainer dls m = Some cn"
    by (auto simp: insertMissing_def split: option.splits)
  from cn obtain first i where
    "find (\<lambda>l. containerName l = cn) dls = Some first"
    and fi: "findIndex (\<lambda>e. componentName e = m) (items first) = Some i"
    and eq: "insertMissing dls sls m =
             (case find (\<lambda>l. containerName l = cn) sls of
                None \<Rightarrow> Inl TypeError
              | Some sl \<Rightarrow>
                  Inr (updateFirst (\<lambda>l. containerName l = cn)
                         (\<lambda>l. l\<lparr>items := splice_insert (if length (items sl) < i then 0 else i)
                                            (items first ! i) (items l)\<rparr>) sls))"
    by (rule insertMissing_eq)
  from eq assms obtain sl where sl: "find (\<lambda>l. containerName l = cn) sls = Some sl"
    and res: "sls' = updateFirst (\<lambda>l. containerName l = cn)
                (\<lambda>l. l\<lparr>items := splice_insert (if length (items sl) < i then 0 else i)
                                   (items first ! i) (items l)\<rparr>) sls"
    by (auto split: option.splits)
  from findIndex_Some [OF fi] have m: "componentName (items first ! i) = m" by simp
  have names: "map containerName sls' = map containerName sls"
    unfolding res by (rule updateFirst_containerNames) simp
  from updateFirst_split [OF sl] obtain pre post where
    "sls = pre @ sl # post"
    "sls' = pre @ sl\<lparr>items := splice_insert (if length (items sl) < i then 0 else i)
                                   (items first ! i) (items sl)\<rparr> # post"
    unfolding res by blast
  then have "set (elementNames sls') = insert m (set (elementNames sls))"
    by (auto simp: set_splice_insert m)
  with names show ?thesis by simp
qed

lemma foldE_insertMissing:
  "foldE (insertMissing dls) ms sls = Inr sls' \<Longrightarrow>
     map containerName sls' = map containerName sls \<and>
     set (elementNames sls') = set ms \<union> set (elementNames sls)"
proof (induction ms arbitrary: sls)
  case Nil
  then show ?case by simp
next
  case (Cons m ms)
  from Cons.prems obtain mid where mid: "insertMissing dls sls m = Inr mid"
    and rest: "foldE (insertMissing dls) ms mid = Inr sls'"
    by (auto split: sum.splits)
  from insertMissing_Inr [OF mid] Cons.IH [OF rest] show ?case by auto
qed

lemma foldE_insertMissing_Inl:
  "foldE (insertMissing dls) ms sls = Inl e \<Longrightarrow> e = TypeError"
proof (induction ms arbitrary: sls)
  case Nil
  then show ?case by simp
next
  case (Cons m ms)
  then show ?case
    by (auto split: sum.splits dest: insertMissing_Inl)
qed

lemma set_missingElementNames:
  "set (missingElementNames dls sls) = set (elementNames dls) - set (elementNames sls)"
  by (auto simp: missingElementNames_def indexOf_None_iff)

lemma missingElementNames_empty_iff:
  "missingElementNames dls sls = [] \<longleftrightarrow> set (elementNames dls) \<subseteq> set (elementNames sls)"
  using set_missingElementNames [of dls sls] by (metis Diff_eq_empty_iff set_empty)

lemma foldE_missing_reconciled:
  assumes "foldE (insertMissing dls) (missingElementNames dls sls) sls = Inr sls'"
  shows "missingElementNames dls sls' = []"
  using foldE_insertMissing [OF assms]
  by (auto simp: missingElementNames_empty_iff set_missingElementNames)

lemma variant_set_variant:
  "variant (set_variant c t v) t' = (if t' = t then v else variant c t')"
  by (cases t; cases t') simp_all

lemma set_variant_same: "variant c t = v \<Longrightarrow> set_variant c t v = c"
  by (cases t) auto

lemma addMissing_reconciled:
  assumes "addMissingComponentsToStoredLayout s d t = Inr s'"
  shows "reconciledVariant s' d t"
  using assms
  by (auto simp: addMissingComponentsToStoredLayout_def reconciledVariant_def
      variant_set_variant foldE_missing_reconciled split: option.splits sum.splits)

lemma addMissing_frame:
  assumes "addMissingComponentsToStoredLayout s d t = Inr s'" and "t' \<noteq> t"
  shows "variant s' t' = variant s t'"
  using assms
  by (auto simp: addMissingComponentsToStoredLayout_def variant_set_variant
      split: option.splits sum.splits)

lemma reconciled_noop:
  assumes "reconciledVariant s d t"
  shows "addMissingComponentsToStoredLayout s d t = Inr s"
  using assms
  by (auto simp: addMissingComponentsToStoredLayout_def reconciledVariant_def
      set_variant_same split: option.splits)

text \<open>
  C8. Reconciliation is idempotent. When the reconciliation of a stored config against
  a default has returned a config, reconciling that config against the same default
  again computes an empty list of missing names for every breakpoint and returns the
  config unchanged, both call by call and for the three calls together.
\<close>

theorem reconcile_idempotent:
  assumes "reconcileStored s d = Inr s'"
  shows "reconcileStored s' d = Inr s' \<and>
         (\<forall>t. reconciledVariant s' d t \<and> addMissingComponentsToStoredLayout s' d t = Inr s')"
proof -
  from assms obtain s1 s2 where
    1: "addMissingComponentsToStoredLayout s d Mobile = Inr s1" and
    2: "addMissingComponentsToStoredLayout s1 d Tablet = Inr s2" and
    3: "addMissingComponentsToStoredLayout s2 d Desktop = Inr s'"
    by (auto simp: reconcileStored_def split: sum.splits)
  have "variant s' Mobile = variant s1 Mobile"
    using addMissing_frame [OF 3, of Mobile] addMissing_frame [OF 2, of Mobile] by simp
  then have m: "reconciledVariant s' d Mobile"
    using addMissing_reconciled [OF 1] by (simp add: reconciledVariant_def)
  have "variant s' Tablet = variant s2 Tablet"
    using addMissing_frame [OF 3, of Tablet] by simp
  then have tb: "reconciledVariant s' d Tablet"
    using addMissing_reconciled [OF 2] by (simp add: reconciledVariant_def)
  have dk: "reconciledVariant s' d Desktop"
    using addMissing_reconciled [OF 3] .
  have all: "reconciledVariant s' d t" for t
    using m tb dk by (cases t) simp_all
  then have noop: "addMissingComponentsToStoredLayout s' d t = Inr s'" for t
    by (rule reconciled_noop)
  then have "reconcileStored s' d = Inr s'"
    by (simp add: reconcileStored_def)
  with all noop show ?thesis by simp
qed


lemma find_unique:
  assumes "x \<in> set xs" and "p x" and "\<And>y. y \<in> set xs \<Longrightarrow> p y \<Longrightarrow> y = x"
  shows "find p xs = Some x"
proof (cases "find p xs")
  case None
  with assms(1,2) show ?thesis by (auto simp: find_None_iff)
next
  case (Some y)
  then have "y \<in> set xs" "p y" by (auto simp: find_Some_iff)
  with assms(3) Some show ?thesis by auto
qed

lemma find_by_distinct_name:
  assumes "distinct (map containerName ls)" and "l \<in> set ls"
  shows "find (\<lambda>k. containerName k = containerName l) ls = Some l"
  using assms by (intro find_unique) (auto simp: distinct_map inj_on_def)

lemma originContainer_unique:
  assumes d: "distinct (map containerName dls)" and l: "l \<in> set dls"
    and m: "m \<in> componentName ` set (items l)"
    and u: "\<And>l'. l' \<in> set dls \<Longrightarrow> l' \<noteq> l \<Longrightarrow> m \<notin> componentName ` set (items l')"
  shows "originContainer dls m = Some (containerName l)"
  unfolding originContainer_def findKey_def
proof (rule find_unique)
  show "containerName l \<in> set (ownKeys (map fst (groupBy dls)))"
    using l by (simp add: set_ownKeys keys_groupBy)
next
  have "find (\<lambda>i. componentName i = m) (items l) \<noteq> None"
    using m by (auto simp: find_None_iff)
  then show "case map_of (groupBy dls) (containerName l) of None \<Rightarrow> False
    | Some v \<Rightarrow> holdsComponent m v (containerName l)"
    using l find_by_distinct_name [OF d l]
    by (simp add: map_of_groupBy holdsComponent_def find_filter_same)
next
  fix k
  assume k: "k \<in> set (ownKeys (map fst (groupBy dls)))"
    and h: "case map_of (groupBy dls) k of None \<Rightarrow> False | Some v \<Rightarrow> holdsComponent m v k"
  from k obtain l' where l': "l' \<in> set dls" "k = containerName l'"
    by (auto simp: set_ownKeys keys_groupBy)
  with h find_by_distinct_name [OF d l'(1)]
  have "find (\<lambda>i. componentName i = m) (items l') \<noteq> None"
    by (simp add: map_of_groupBy holdsComponent_def find_filter_same)
  then have "m \<in> componentName ` set (items l')"
    by (auto simp: find_None_iff)
  with u [OF l'(1)] have "l' = l" by blast
  with l'(2) show "k = containerName l" by simp
qed

lemma updateFirst_cong_first:
  "find p ls = Some l \<Longrightarrow> f l = g l \<Longrightarrow> updateFirst p f ls = updateFirst p g ls"
  by (induction ls) (auto split: if_splits)

text \<open>
  One pass of the loop body. A missing component whose origin container the code has
  found (\<open>cn\<close>) and for which the stored variant has a list of that name (\<open>sl\<close>, the
  first such list) is spliced into that list at its index \<open>i\<close> within the first
  default list of that name, or in front when \<open>i\<close> exceeds the number of items of the
  stored list.
\<close>

lemma insertMissing_placement:
  assumes "originContainer dls m = Some cn"
    and "find (\<lambda>l. containerName l = cn) sls = Some sl"
  shows "\<exists>origin i.
           find (\<lambda>l. containerName l = cn) dls = Some origin \<and>
           findIndex (\<lambda>e. componentName e = m) (items origin) = Some i \<and>
           insertMissing dls sls m =
             Inr (updateFirst (\<lambda>l. containerName l = cn)
                    (\<lambda>l. l\<lparr>items :=
                       (if length (items sl) < i then items origin ! i # items sl
                        else take i (items sl) @ items origin ! i # drop i (items sl))\<rparr>) sls)"
proof -
  from assms(1) obtain origin i where
    o: "find (\<lambda>l. containerName l = cn) dls = Some origin"
    and i: "findIndex (\<lambda>e. componentName e = m) (items origin) = Some i"
    and eq: "insertMissing dls sls m =
             (case find (\<lambda>l. containerName l = cn) sls of
                None \<Rightarrow> Inl TypeError
              | Some sl \<Rightarrow>
                  Inr (updateFirst (\<lambda>l. containerName l = cn)
                         (\<lambda>l. l\<lparr>items := splice_insert (if length (items sl) < i then 0 else i)
                                            (items origin ! i) (items l)\<rparr>) sls))"
    by (rule insertMissing_eq)
  let ?p = "\<lambda>l. containerName l = cn"
  let ?f = "\<lambda>l. l\<lparr>items := splice_insert (if length (items sl) < i then 0 else i)
                                (items origin ! i) (items l)\<rparr>"
  let ?g = "\<lambda>l. l\<lparr>items :=
                       (if length (items sl) < i then items origin ! i # items sl
                        else take i (items sl) @ items origin ! i # drop i (items sl))\<rparr>"
  have "?f sl = ?g sl"
    by (simp add: splice_insert_def)
  with assms(2) have "updateFirst ?p ?f sls = updateFirst ?p ?g sls"
    by (rule updateFirst_cong_first)
  with eq assms(2) have "insertMissing dls sls m = Inr (updateFirst ?p ?g sls)"
    by simp
  with o i show ?thesis by blast
qed

subsection \<open>A missing origin container, and examples of reconciliation\<close>

lemma insertMissing_absent_container:
  assumes "originContainer dls m = Some cn" and "cn \<notin> containerName ` set sls"
  shows "insertMissing dls sls m = Inl TypeError"
proof -
  from assms(2) have "find (\<lambda>l. containerName l = cn) sls = None"
    by (auto simp: find_None_iff)
  moreover from assms(1) obtain first i where
    "find (\<lambda>l. containerName l = cn) dls = Some first"
    "findIndex (\<lambda>e. componentName e = m) (items first) = Some i"
    "insertMissing dls sls m =
       (case find (\<lambda>l. containerName l = cn) sls of
          None \<Rightarrow> Inl TypeError
        | Some sl \<Rightarrow>
            Inr (updateFirst (\<lambda>l. containerName l = cn)
                   (\<lambda>l. l\<lparr>items := splice_insert (if length (items sl) < i then 0 else i)
                                      (items first ! i) (items l)\<rparr>) sls))"
    by (rule insertMissing_eq)
  ultimately show ?thesis by simp
qed

lemma foldE_absent_container:
  assumes "originContainer dls m = Some cn"
  shows "m \<in> set ms \<Longrightarrow> cn \<notin> containerName ` set sls \<Longrightarrow>
           foldE (insertMissing dls) ms sls = Inl TypeError"
proof (induction ms arbitrary: sls)
  case Nil
  then show ?case by simp
next
  case (Cons x ms)
  show ?case
  proof (cases "insertMissing dls sls x")
    case (Inl e)
    then show ?thesis by (simp add: insertMissing_Inl)
  next
    case (Inr mid)
    with insertMissing_absent_container [OF assms Cons.prems(2)] have "x \<noteq> m"
      by auto
    with Cons.prems(1) have "m \<in> set ms" by simp
    moreover from insertMissing_Inr [OF Inr] Cons.prems(2)
    have "cn \<notin> containerName ` set mid"
      by (metis list.set_map)
    ultimately have "foldE (insertMissing dls) ms mid = Inl TypeError"
      by (rule Cons.IH)
    with Inr show ?thesis by simp
  qed
qed

text \<open>
  C3, as the code has it. When a missing component's origin container has no list of
  its name in the stored variant, no container is fabricated and the insertion is not
  skipped either: \<^verbatim>\<open>find\<close> returns undefined, reading \<^verbatim>\<open>.items\<close> throws a
  TypeError, and the reconciliation of the variant ends with that error, so the
  components after it are not processed.
\<close>

theorem addMissing_absent_container_throws:
  assumes "variant s t = Some sl" and "listsL sl = Some sls"
    and "variant d t = Some dl" and "listsL dl = Some dls"
    and "m \<in> set (missingElementNames dls sls)"
    and "originContainer dls m = Some cn"
    and "cn \<notin> containerName ` set sls"
  shows "addMissingComponentsToStoredLayout s d t = Inl TypeError"
  using assms(1-4) foldE_absent_container [OF assms(6,5,7)]
  by (simp add: addMissingComponentsToStoredLayout_def)

lemma variant_mkConfig: "variant (mkConfig v ls) Mobile = Some \<lparr>listsL = Some ls\<rparr>"
  by (simp add: mkConfig_def)

lemma ex_missing: "''z'' \<in> set (missingElementNames [mkList ''A'' [''x''], mkList ''B'' [''z'']] [mkList ''A'' [''x'']])"
  by code_simp

lemma ex_origin: "originContainer [mkList ''A'' [''x''], mkList ''B'' [''z'']] ''z'' = Some ''B''"
  by code_simp

lemma ex_absent: "''B'' \<notin> containerName ` set [mkList ''A'' [''x'']]"
  by (simp add: mkList_def)

theorem addMissing_absent_container_throws_witness:
  "addMissingComponentsToStoredLayout (mkConfig 1 [mkList ''A'' [''x'']])
     (mkConfig 1 [mkList ''A'' [''x''], mkList ''B'' [''z'']]) Mobile = Inl TypeError"
  by (rule addMissing_absent_container_throws
      [OF variant_mkConfig _ variant_mkConfig _ ex_missing ex_origin ex_absent]) simp_all

lemma absent_container_example:
  "missingElementNames [mkList ''B'' [''z''], mkList ''A'' [''x'', ''w'']] [mkList ''A'' [''x'']]
     = [''z'', ''w''] \<and>
   originContainer [mkList ''B'' [''z''], mkList ''A'' [''x'', ''w'']] ''z'' = Some ''B'' \<and>
   find (\<lambda>l. containerName l = ''B'') [mkList ''A'' [''x'']] = None \<and>
   addMissingComponentsToStoredLayout (mkConfig 1 [mkList ''A'' [''x'']])
     (mkConfig 1 [mkList ''B'' [''z''], mkList ''A'' [''x'', ''w'']]) Mobile = Inl TypeError"
  by code_simp

text \<open>
  The default has \<open>z\<close> in container \<open>B\<close> and \<open>w\<close> in container \<open>A\<close>; the stored
  layout has only container \<open>A\<close>. Reconciliation does not complete with \<open>w\<close>
  inserted: it throws at \<open>z\<close>, and so does \<^verbatim>\<open>initializeState\<close>.
\<close>

theorem addMissing_absent_container_not_skipped:
  "missingElementNames [mkList ''B'' [''z''], mkList ''A'' [''x'', ''w'']] [mkList ''A'' [''x'']]
     = [''z'', ''w''] \<and>
   originContainer [mkList ''B'' [''z''], mkList ''A'' [''x'', ''w'']] ''z'' = Some ''B'' \<and>
   find (\<lambda>l. containerName l = ''B'') [mkList ''A'' [''x'']] = None \<and>
   addMissingComponentsToStoredLayout (mkConfig 1 [mkList ''A'' [''x'']])
     (mkConfig 1 [mkList ''B'' [''z''], mkList ''A'' [''x'', ''w'']]) Mobile = Inl TypeError \<and>
   initializeState (mkConfig 1 [mkList ''B'' [''z''], mkList ''A'' [''x'', ''w'']])
     (storageWith (WellFormed (JConfig (mkConfig 1 [mkList ''A'' [''x'']])))) = Inl TypeError"
proof -
  have n: "name (mkConfig v ls) = ''dashboard''" "version (mkConfig v ls) = v"
    "mobile (mkConfig v ls) = Some \<lparr>listsL = Some ls\<rparr>" for v ls
    by (simp_all add: mkConfig_def)
  show ?thesis
    using absent_container_example
    by (simp add: n initializeState_def JSON_parse_def storageWith_def reconcileStored_def)
qed

lemma ex_origin_c: "originContainer [mkList ''A'' [''a'', ''b'', ''c'', ''d'', ''e'', ''y'']] ''y'' = Some ''A''"
  by code_simp

lemma ex_find_c:
  "find (\<lambda>l. containerName l = ''A'')
     [mkList ''A'' [''x''], mkList ''B'' [''a'', ''b'', ''c'', ''d'', ''e'']] = Some (mkList ''A'' [''x''])"
  by (simp add: mkList_def)

lemma insertMissing_scenario_C:
  "insertMissing [mkList ''A'' [''a'', ''b'', ''c'', ''d'', ''e'', ''y'']]
     [mkList ''A'' [''x''], mkList ''B'' [''a'', ''b'', ''c'', ''d'', ''e'']] ''y'' =
   Inr [mkList ''A'' [''y'', ''x''], mkList ''B'' [''a'', ''b'', ''c'', ''d'', ''e'']]"
  using insertMissing_placement [OF ex_origin_c ex_find_c]
  by (auto simp: mkList_def mkElement_def)

theorem reconcile_idempotent_witness:
  "reconcileStored (mkConfig 3 [mkList ''A'' [''x'', ''y''], mkList ''G'' []])
     (mkConfig 2 [mkList ''A'' [''x'', ''y'']]) =
   Inr (mkConfig 3 [mkList ''A'' [''x'', ''y''], mkList ''G'' []])"
  using reconcile_idempotent [OF reconcile_newer_stored] by simp

subsection \<open>The reconciliation of a variant against the description\<close>

lemma specNames_elementNames: "specNames ls = elementNames ls"
  by (simp add: specNames_def elementNames_def map_concat comp_def)

lemma specMissing_missingElementNames: "missingElementNames dls sls = specMissing dls sls"
  by (simp add: missingElementNames_def specMissing_def specNames_elementNames indexOf_None_iff)

lemma findIndex_takeWhile:
  "findIndex p xs = Some i \<Longrightarrow> i = length (takeWhile (\<lambda>x. \<not> p x) xs)"
  by (induction xs arbitrary: i) (auto split: if_splits)

lemma updateFirst_nth:
  "find p ls = Some l \<Longrightarrow>
     length (takeWhile (\<lambda>x. \<not> p x) ls) < length ls \<and>
     ls ! length (takeWhile (\<lambda>x. \<not> p x) ls) = l \<and>
     updateFirst p f ls = ls[length (takeWhile (\<lambda>x. \<not> p x) ls) := f l]"
  by (induction ls) (auto split: if_splits)

lemma unique_holder:
  "distinct (specNames dls) \<Longrightarrow> l \<in> set dls \<Longrightarrow> l' \<in> set dls \<Longrightarrow>
     m \<in> componentName ` set (items l) \<Longrightarrow> m \<in> componentName ` set (items l') \<Longrightarrow> l = l'"
proof (induction dls)
  case Nil
  then show ?case by simp
next
  case (Cons a dls)
  have in_rest: "m \<in> set (specNames dls)"
    if "x \<in> set dls" "m \<in> componentName ` set (items x)" for x
    using that by (auto simp: specNames_def)
  from Cons.prems(1) have d: "distinct (specNames dls)"
    and disj: "set (map componentName (items a)) \<inter> set (specNames dls) = {}"
    by (simp_all add: specNames_def)
  show ?case
  proof (cases "l = a")
    case True
    show ?thesis
    proof (cases "l' = a")
      case True
      with \<open>l = a\<close> show ?thesis by simp
    next
      case False
      with Cons.prems(3) have "l' \<in> set dls" by simp
      from in_rest [OF this Cons.prems(5)] disj True Cons.prems(4) show ?thesis by auto
    qed
  next
    case False
    with Cons.prems(2) have l: "l \<in> set dls" by simp
    show ?thesis
    proof (cases "l' = a")
      case True
      from in_rest [OF l Cons.prems(4)] disj True Cons.prems(5) show ?thesis by auto
    next
      case False
      with Cons.prems(3) have "l' \<in> set dls" by simp
      from Cons.IH [OF d l this Cons.prems(4,5)] show ?thesis .
    qed
  qed
qed


lemma insertMissing_specPlace:
  assumes dn: "distinct (map containerName dls)" and dc: "distinct (specNames dls)"
    and l: "l \<in> set dls" and m: "m \<in> componentName ` set (items l)"
    and present: "containerName l \<in> containerName ` set sls"
  shows "insertMissing dls sls m = Inr (specPlace dls sls m)"
proof -
  let ?cn = "containerName l"
  have holder: "l' = l" if "l' \<in> set dls" "m \<in> componentName ` set (items l')" for l'
    using unique_holder [OF dc that(1) l that(2) m] .
  have origin: "originContainer dls m = Some ?cn"
  proof (rule originContainer_unique [OF dn l m])
    fix l' assume "l' \<in> set dls" "l' \<noteq> l"
    with holder show "m \<notin> componentName ` set (items l')" by blast
  qed
  have fo: "find (\<lambda>x. m \<in> componentName ` set (items x)) dls = Some l"
  proof (rule find_unique)
    show "l \<in> set dls" by fact
    show "m \<in> componentName ` set (items l)" by fact
    fix y assume "y \<in> set dls" "m \<in> componentName ` set (items y)"
    then show "y = l" by (rule holder)
  qed
  from present obtain target where target: "find (\<lambda>x. containerName x = ?cn) sls = Some target"
    by (cases "find (\<lambda>x. containerName x = ?cn) sls") (auto simp: find_None_iff)
  from insertMissing_placement [OF origin target] obtain origin' i where
    o': "find (\<lambda>x. containerName x = ?cn) dls = Some origin'"
    and i: "findIndex (\<lambda>e. componentName e = m) (items origin') = Some i"
    and eq: "insertMissing dls sls m =
             Inr (updateFirst (\<lambda>x. containerName x = ?cn)
                    (\<lambda>x. x\<lparr>items :=
                       (if length (items target) < i then items origin' ! i # items target
                        else take i (items target) @ items origin' ! i # drop i (items target))\<rparr>) sls)"
    by blast
  from o' find_by_distinct_name [OF dn l] have ol: "origin' = l" by simp
  from findIndex_takeWhile [OF i]
  have i_eq: "length (takeWhile (\<lambda>e. componentName e \<noteq> m) (items l)) = i"
    by (simp add: ol)
  let ?k = "length (takeWhile (\<lambda>x. containerName x \<noteq> ?cn) sls)"
  let ?new = "target\<lparr>items :=
                       (if length (items target) < i then items l ! i # items target
                        else take i (items target) @ items l ! i # drop i (items target))\<rparr>"
  from updateFirst_nth [OF target]
  have k: "?k < length sls" and kt: "sls ! ?k = target"
    by simp_all
  have "insertMissing dls sls m = Inr (sls[?k := ?new])"
    unfolding eq ol using updateFirst_nth [OF target] by simp
  moreover have "specPlace dls sls m = sls[?k := ?new]"
    using k kt i_eq by (simp add: specPlace_def fo Let_def)
  ultimately show ?thesis by simp
qed


lemma set_specNames: "set (specNames ls) = (\<Union>l \<in> set ls. componentName ` set (items l))"
  by (auto simp: specNames_def)

lemma foldE_specPlace:
  assumes dn: "distinct (map containerName dls)" and dc: "distinct (specNames dls)"
  shows "set ms \<subseteq> set (specNames dls) \<Longrightarrow>
         (\<forall>l \<in> set dls. (\<exists>m \<in> set ms. m \<in> componentName ` set (items l)) \<longrightarrow>
            containerName l \<in> containerName ` set L) \<Longrightarrow>
         foldE (insertMissing dls) ms L = Inr (foldl (specPlace dls) L ms)"
proof (induction ms arbitrary: L)
  case Nil
  then show ?case by simp
next
  case (Cons m ms)
  from Cons.prems(1) obtain l where l: "l \<in> set dls" "m \<in> componentName ` set (items l)"
    by (auto simp: set_specNames)
  with Cons.prems(2) have "containerName l \<in> containerName ` set L" by auto
  from insertMissing_specPlace [OF dn dc l this]
  have step: "insertMissing dls L m = Inr (specPlace dls L m)" .
  from insertMissing_Inr [OF step]
  have "containerName ` set (specPlace dls L m) = containerName ` set L"
    by (metis list.set_map)
  with Cons.prems(2)
  have "\<forall>l \<in> set dls. (\<exists>m \<in> set ms. m \<in> componentName ` set (items l)) \<longrightarrow>
            containerName l \<in> containerName ` set (specPlace dls L m)"
    by auto
  moreover from Cons.prems(1) have "set ms \<subseteq> set (specNames dls)" by simp
  ultimately have "foldE (insertMissing dls) ms (specPlace dls L m) =
      Inr (foldl (specPlace dls) (specPlace dls L m) ms)"
    by (rule Cons.IH [rotated])
  with step show ?case by simp
qed

text \<open>
  C6. Let the default variant be well formed (no container name and no component name
  occurs twice in it) and let every default list that holds a missing component have a
  list of its name in the stored variant. Then the reconciliation of the variant
  returns the stored config with the lists the steps of the description produce: each
  missing component, in the order of the default, is inserted into the stored list
  with its origin container name at its index within the origin default list, unless
  that index exceeds the current number of items of the stored list, in which case it
  is inserted in front. With a stored list of one item and index 5 the items become
  the missing item followed by the existing one.
\<close>

theorem addMissing_places_each_missing:
  assumes "variant s t = Some sl" and "listsL sl = Some sls"
    and "variant d t = Some dl" and "listsL dl = Some dls"
    and dn: "distinct (map containerName dls)" and dc: "distinct (specNames dls)"
    and present: "\<forall>l \<in> set dls.
        (\<exists>m \<in> set (specMissing dls sls). m \<in> componentName ` set (items l)) \<longrightarrow>
        containerName l \<in> containerName ` set sls"
  shows "addMissingComponentsToStoredLayout s d t =
           Inr (set_variant s t (Some (sl\<lparr>listsL := Some (specReconcile dls sls)\<rparr>)))"
proof -
  have "set (specMissing dls sls) \<subseteq> set (specNames dls)"
    by (auto simp: specMissing_def)
  from foldE_specPlace [OF dn dc this present]
  have "foldE (insertMissing dls) (missingElementNames dls sls) sls =
          Inr (specReconcile dls sls)"
    by (simp add: specMissing_missingElementNames specReconcile_def)
  with assms(1-4) show ?thesis
    by (simp add: addMissingComponentsToStoredLayout_def)
qed

lemma scenario_C_wellformed:
  "distinct (map containerName [mkList ''A'' [''a'', ''b'', ''c'', ''d'', ''e'', ''y'']]) \<and>
   distinct (specNames [mkList ''A'' [''a'', ''b'', ''c'', ''d'', ''e'', ''y'']]) \<and>
   (\<forall>l \<in> set [mkList ''A'' [''a'', ''b'', ''c'', ''d'', ''e'', ''y'']].
      (\<exists>m \<in> set (specMissing [mkList ''A'' [''a'', ''b'', ''c'', ''d'', ''e'', ''y'']]
                     [mkList ''A'' [''x''], mkList ''B'' [''a'', ''b'', ''c'', ''d'', ''e'']]).
         m \<in> componentName ` set (items l)) \<longrightarrow>
      containerName l \<in> containerName `
        set [mkList ''A'' [''x''], mkList ''B'' [''a'', ''b'', ''c'', ''d'', ''e'']])"
  by code_simp

lemma scenario_C_reconciled:
  "specMissing [mkList ''A'' [''a'', ''b'', ''c'', ''d'', ''e'', ''y'']]
     [mkList ''A'' [''x''], mkList ''B'' [''a'', ''b'', ''c'', ''d'', ''e'']] = [''y''] \<and>
   specReconcile [mkList ''A'' [''a'', ''b'', ''c'', ''d'', ''e'', ''y'']]
     [mkList ''A'' [''x''], mkList ''B'' [''a'', ''b'', ''c'', ''d'', ''e'']] =
   [mkList ''A'' [''y'', ''x''], mkList ''B'' [''a'', ''b'', ''c'', ''d'', ''e'']]"
  by code_simp

theorem addMissing_places_each_missing_witness:
  "addMissingComponentsToStoredLayout
     (mkConfig 1 [mkList ''A'' [''x''], mkList ''B'' [''a'', ''b'', ''c'', ''d'', ''e'']])
     (mkConfig 2 [mkList ''A'' [''a'', ''b'', ''c'', ''d'', ''e'', ''y'']]) Mobile =
   Inr (mkConfig 1 [mkList ''A'' [''y'', ''x''], mkList ''B'' [''a'', ''b'', ''c'', ''d'', ''e'']])"
proof -
  let ?S = "[mkList ''A'' [''x''], mkList ''B'' [''a'', ''b'', ''c'', ''d'', ''e'']]"
  let ?D = "[mkList ''A'' [''a'', ''b'', ''c'', ''d'', ''e'', ''y'']]"
  have s: "variant (mkConfig 1 ?S) Mobile = Some \<lparr>listsL = Some ?S\<rparr>"
    and d: "variant (mkConfig 2 ?D) Mobile = Some \<lparr>listsL = Some ?D\<rparr>"
    by (rule variant_mkConfig)+
  have l: "listsL \<lparr>listsL = Some ls\<rparr> = Some ls" for ls :: "LayoutList list"
    by simp
  from addMissing_places_each_missing
    [OF s l d l
        conjunct1 [OF scenario_C_wellformed]
        conjunct1 [OF conjunct2 [OF scenario_C_wellformed]]
        conjunct2 [OF conjunct2 [OF scenario_C_wellformed]]]
  show ?thesis
    by (simp add: scenario_C_reconciled mkConfig_def)
qed

subsection \<open>The mutators\<close>

lemma mapE_total: "mapE (\<lambda>x. Inr (g x)) xs = Inr (map g xs)"
  by (induction xs) auto

lemma currentLists_cases:
  "currentLists st = Inr ls \<longleftrightarrow>
     (\<exists>lay. currentLayout st = Some lay \<and> listsL lay = Some ls)"
  by (auto simp: currentLists_def split: option.splits)

lemma currentLayout_setCurrentLayout [simp]:
  "currentLayout (setCurrentLayout st lay) = Some lay"
  by (simp add: currentLayout_def setCurrentLayout_def Let_def variant_set_variant)

lemma frame_setCurrentLayout [simp]:
  "layoutType (setCurrentLayout st lay) = layoutType st"
  "defaultLayout (setCurrentLayout st lay) = defaultLayout st"
  by (simp_all add: setCurrentLayout_def Let_def)

lemma getConnectedLists_Some:
  assumes "currentLists st = Inr cls" and "listsL lay = Some ls"
  shows "getConnectedLists st (Some lay) =
           Inr (lay\<lparr>listsL := Some (connectedAgainst (map containerName cls) ls)\<rparr>)"
  using assms
  by (simp add: getConnectedLists_def getConnectedToString_def mapE_total connectedAgainst_def)

lemma updateLayout_lists:
  assumes "currentLists st = Inr ls"
  shows "\<exists>st'. updateLayout st = Inr st' \<and>
           currentLists st' = Inr (connectedAgainst (map containerName ls) ls)"
proof -
  from assms obtain lay where lay: "currentLayout st = Some lay" "listsL lay = Some ls"
    by (auto simp: currentLists_cases)
  show ?thesis
    by (simp add: updateLayout_def lay getConnectedLists_Some [OF assms lay(2)]
        currentLists_cases)
qed

lemma updateLayout_after_set:
  "\<exists>st'. updateLayout (setCurrentLayout st (lay\<lparr>listsL := Some ls\<rparr>)) = Inr st' \<and>
         currentLists st' = Inr (connectedAgainst (map containerName ls) ls)"
  by (rule updateLayout_lists) (simp add: currentLists_cases)

lemma elementNames_connectedAgainst [simp]:
  "elementNames (connectedAgainst names ls) = elementNames ls"
  by (simp add: elementNames_def connectedAgainst_def comp_def)

lemma containerNames_connectedAgainst [simp]:
  "map containerName (connectedAgainst names ls) = map containerName ls"
  by (simp add: connectedAgainst_def comp_def)

lemma addColumnRight_lists:
  assumes "currentLists st = Inr ls"
  shows "\<exists>st'. addColumnRightPressed guid st = Inr st' \<and>
           currentLists st' =
             Inr (connectedAgainst (map containerName (ls @ [getEmptyList guid]))
                    (ls @ [getEmptyList guid]))"
proof -
  from assms obtain lay where lay: "currentLayout st = Some lay" "listsL lay = Some ls"
    by (auto simp: currentLists_cases)
  show ?thesis
    unfolding addColumnRightPressed_def
    using updateLayout_after_set [where st = st and lay = lay and ls = "ls @ [getEmptyList guid]"]
    by (simp add: lay)
qed

lemma addColumnLeft_lists:
  assumes "currentLists st = Inr ls"
  shows "\<exists>st'. addColumnLeftPressed guid st = Inr st' \<and>
           currentLists st' =
             Inr (connectedAgainst (map containerName (getEmptyList guid # ls))
                    (getEmptyList guid # ls))"
proof -
  from assms obtain lay where lay: "currentLayout st = Some lay" "listsL lay = Some ls"
    by (auto simp: currentLists_cases)
  show ?thesis
    unfolding addColumnLeftPressed_def
    using updateLayout_after_set [where st = st and lay = lay and ls = "getEmptyList guid # ls"]
    by (simp add: lay)
qed

lemma removeColumnLeft_lists:
  assumes "currentLists st = Inr (removed # survivor # others)"
  shows "\<exists>st'. removeColumnLeftPressed st = Inr st' \<and>
           currentLists st' =
             Inr (connectedAgainst (map containerName (survivor # others))
                    (survivor\<lparr>items := items survivor @ items removed\<rparr> # others))"
proof -
  from assms obtain lay where lay: "currentLayout st = Some lay"
    "listsL lay = Some (removed # survivor # others)"
    by (auto simp: currentLists_cases)
  show ?thesis
    unfolding removeColumnLeftPressed_def
    using updateLayout_after_set
      [where st = st and lay = lay
         and ls = "survivor\<lparr>items := items survivor @ items removed\<rparr> # others"]
    by (simp add: lay)
qed

lemma removeColumnRight_lists:
  assumes "currentLists st = Inr (keep @ [survivor, removed])"
  shows "\<exists>st'. removeColumnRightPressed st = Inr st' \<and>
           currentLists st' =
             Inr (connectedAgainst (map containerName (keep @ [survivor]))
                    (keep @ [survivor\<lparr>items := items survivor @ items removed\<rparr>]))"
proof -
  from assms obtain lay where lay: "currentLayout st = Some lay"
    "listsL lay = Some (keep @ [survivor, removed])"
    by (auto simp: currentLists_cases)
  have b: "butlast (keep @ [survivor, removed]) = keep @ [survivor]"
    by (simp add: butlast_append)
  show ?thesis
    unfolding removeColumnRightPressed_def
    using updateLayout_after_set
      [where st = st and lay = lay
         and ls = "keep @ [survivor\<lparr>items := items survivor @ items removed\<rparr>]"]
    by (simp add: lay b Let_def)
qed














lemma two_lists_front: "2 \<le> length ls \<Longrightarrow> \<exists>removed survivor others. ls = removed # survivor # others"
  by (cases ls; cases "tl ls") auto

lemma two_lists_back: "2 \<le> length ls \<Longrightarrow> \<exists>keep survivor removed. ls = keep @ [survivor, removed]"
proof -
  assume a: "2 \<le> length ls"
  then have "ls \<noteq> []" by auto
  then obtain ys r where ys: "ls = ys @ [r]" by (metis rev_exhaust)
  with a have "ys \<noteq> []" by auto
  then obtain keep s where "ys = keep @ [s]" by (metis rev_exhaust)
  with ys show ?thesis by auto
qed

lemma connectedAgainst_connectedIn:
  assumes "l \<in> set (connectedAgainst (map containerName ls) ls)"
  shows "connectedIn (connectedAgainst (map containerName ls) ls) l"
  using assms by (auto simp: connectedIn_def connectedAgainst_def)

lemma connectedAgainst_own_names:
  assumes "map containerName ls = names"
  shows "list_all (connectedIn (connectedAgainst names ls)) (connectedAgainst names ls)"
  using assms by (auto simp: list_all_iff connectedIn_def connectedAgainst_def)

text \<open>
  The column operations end in \<^verbatim>\<open>updateLayout\<close>, which connects the new current
  layout against itself: after an added or a removed column every list of the active
  layout has in \<^verbatim>\<open>connectedTo\<close> exactly the other container names of that layout.
\<close>

theorem column_operations_connect:
  assumes cur: "currentLists st = Inr ls" and app: "applicable op ls"
    and op: "op = AddColumnRight g \<or> op = AddColumnLeft g \<or> op = RemoveColumnLeft \<or>
             op = RemoveColumnRight"
  shows "\<exists>st' ls'. mutate op st = Inr st' \<and> currentLists st' = Inr ls' \<and>
           list_all (connectedIn ls') ls'"
proof -
  from op consider (r) "op = AddColumnRight g" | (l) "op = AddColumnLeft g"
    | (rl) "op = RemoveColumnLeft" | (rr) "op = RemoveColumnRight" by blast
  then show ?thesis
  proof cases
    case r
    with addColumnRight_lists [OF cur, of g]
      connectedAgainst_own_names [OF refl, of "ls @ [getEmptyList g]"]
    show ?thesis by auto
  next
    case l
    with addColumnLeft_lists [OF cur, of g]
      connectedAgainst_own_names [OF refl, of "getEmptyList g # ls"]
    show ?thesis by auto
  next
    case rl
    with app have "2 \<le> length ls" by simp
    from two_lists_front [OF this] obtain removed survivor others
      where ls: "ls = removed # survivor # others" by blast
    have "list_all
        (connectedIn (connectedAgainst (map containerName (survivor # others))
           (survivor\<lparr>items := items survivor @ items removed\<rparr> # others)))
        (connectedAgainst (map containerName (survivor # others))
           (survivor\<lparr>items := items survivor @ items removed\<rparr> # others))"
      by (rule connectedAgainst_own_names) simp
    with removeColumnLeft_lists [OF cur [unfolded ls]] rl show ?thesis by auto
  next
    case rr
    with app have "2 \<le> length ls" by simp
    from two_lists_back [OF this] obtain keep' survivor removed
      where ls: "ls = keep' @ [survivor, removed]" by blast
    have "list_all
        (connectedIn (connectedAgainst (map containerName (keep' @ [survivor]))
           (keep' @ [survivor\<lparr>items := items survivor @ items removed\<rparr>])))
        (connectedAgainst (map containerName (keep' @ [survivor]))
           (keep' @ [survivor\<lparr>items := items survivor @ items removed\<rparr>]))"
      by (rule connectedAgainst_own_names) simp
    with removeColumnRight_lists [OF cur [unfolded ls]] rr show ?thesis by auto
  qed
qed

theorem column_operations_connect_witness:
  "\<exists>st' ls'.
     mutate RemoveColumnRight
       (mkComponent [] [mkList ''L'' [''r''], mkList ''R'' [''p'', ''q'']]) = Inr st' \<and>
     currentLists st' = Inr ls' \<and> list_all (connectedIn ls') ls'"
proof -
  have "applicable RemoveColumnRight [mkList ''L'' [''r''], mkList ''R'' [''p'', ''q'']]"
    by simp
  from column_operations_connect [OF currentLists_mkComponent this, of "[]" "[]"]
  show ?thesis by simp
qed




text \<open>Scenarios D and E of the description, run on the model.\<close>

lemma scenario_D:
  "currentListsOf (mutate (Drag ''A'' ''B'' 0 1)
      (mkComponent [] [mkList ''A'' [''a1'', ''a2''], mkList ''B'' [''b1'']])) =
   Inr [mkList ''A'' [''a2''], mkList ''B'' [''b1'', ''a1'']]"
  by code_simp

lemma scenario_E:
  "currentListsOf (removeColumnRightPressed
      (mkComponent [] [mkList ''L'' [''r''], mkList ''R'' [''p'', ''q'']])) =
   Inr [mkList ''L'' [''r'', ''p'', ''q'']]"
  by code_simp






text \<open>
  C4 at a concrete state. The default layout has the one list \<open>A\<close>. After a column
  \<open>G\<close> has been added, both lists are connected to each other. The reset that
  follows connects the default layout against the layout that is being discarded:
  the only list of the result, \<open>A\<close>, has \<^verbatim>\<open>connectedTo = ["G"]\<close>, the name of a
  container that is no longer in the layout, where the other container names of the
  resulting layout are none.
\<close>

theorem resetPressed_connectedTo_stale:
  "currentListsOf (addColumnRightPressed ''G'' (mkComponent [mkList ''A'' [''x'']] [mkList ''A'' [''x'']])) =
     Inr [(mkList ''A'' [''x''])\<lparr>connectedTo := [''G'']\<rparr>, (mkList ''G'' [])\<lparr>connectedTo := [''A'']\<rparr>] \<and>
   currentListsOf (andThen
      (addColumnRightPressed ''G'' (mkComponent [mkList ''A'' [''x'']] [mkList ''A'' [''x'']]))
      resetPressed) =
     Inr [(mkList ''A'' [''x''])\<lparr>connectedTo := [''G'']\<rparr>] \<and>
   \<not> connectedIn [(mkList ''A'' [''x''])\<lparr>connectedTo := [''G'']\<rparr>]
         ((mkList ''A'' [''x''])\<lparr>connectedTo := [''G'']\<rparr>)"
  by code_simp

end
